theory Spec2Isabelle
  imports Main "HOL-Library.Word" "HOL-Library.Finite_Map"
begin

chapter \<open>The program\<close>

section \<open>JavaScript values\<close>

text \<open>
  A JavaScript string is a sequence of UTF-16 code units. Text whose code units matter
  (document strings, property keys, file and response bodies) is a \<open>jsstring\<close>;
  \<open>ascii\<close> embeds an ASCII literal. Sources, paths, header values and messages
  are plain strings.
\<close>

type_synonym jsstring = "16 word list"

definition ascii :: "string \<Rightarrow> jsstring" where
  "ascii s = map of_char s"

text \<open>
  A finite number is carried by the text that \<open>Number.prototype.toString\<close> gives for
  it (\<open>''1''\<close>, \<open>''-2.5''\<close>, \<open>''1e+21''\<close>): the program only prints numbers and compares
  them for identity. \<open>JSON.parse\<close> yields \<open>PosInfinity\<close> and \<open>NegInfinity\<close> on
  literals beyond the double range (\<open>1e999\<close>).
\<close>

datatype jsnumber = Finite string | PosInfinity | NegInfinity | NaN

text \<open>
  A property read can also yield an object of the runtime. \<open>ObjectFunction name\<close> is the
  function that \<open>Object.prototype\<close> holds under \<open>name\<close> (\<open>({}).toString\<close>,
  \<open>({}).constructor\<close>), \<open>ObjectPrototype\<close> is \<open>Object.prototype\<close> itself
  (\<open>({}).__proto__\<close>) and \<open>Other n\<close> is any other built-in object: a member of
  \<open>String.prototype\<close>, a property of a function, and so on.
\<close>

datatype builtin = ObjectFunction jsstring | ObjectPrototype | Other nat

text \<open>
  The values the projector and the size accountant see (\<open>data: any\<close>). \<open>JObj\<close> is an
  object that \<open>JSON.parse\<close> or an object literal created, as the list of its own
  properties in enumeration order; its prototype is \<open>Object.prototype\<close>. A property may
  hold \<open>undefined\<close>.
\<close>

datatype jsval =
    JUndefined
  | JNull
  | JBool bool
  | JNum jsnumber
  | JStr jsstring
  | JArr "jsval list"
  | JObj "(jsstring \<times> jsval) list"
  | JBuiltin builtin

text \<open>
  \<open>type Shape = { [key: string]: true | Shape }\<close>, as the list of the shape's entries in
  \<open>for ... in\<close> order. The shape arrives as unvalidated JSON: \<open>Ignored\<close> stands for a
  rule that is neither \<open>true\<close> nor of type \<open>object\<close> (\<open>false\<close>, a number, a string);
  \<open>null\<close> has type \<open>object\<close> and no key to enumerate, so it is \<open>Nested []\<close>, and an
  array is the shape of its indices.
\<close>

datatype rule = Include | Nested "(jsstring \<times> rule) list" | Ignored

type_synonym shape = "(jsstring \<times> rule) list"

datatype js_error = TypeError

subsection \<open>The prototypes\<close>

text \<open>
  The own properties of \<open>Object.prototype\<close>, which every plain object inherits: eleven
  functions and the accessor \<open>__proto__\<close>.
\<close>

definition object_prototype_functions :: "jsstring list" where
  "object_prototype_functions =
     map ascii [''constructor'', ''__defineGetter__'', ''__defineSetter__'', ''hasOwnProperty'',
                ''__lookupGetter__'', ''__lookupSetter__'', ''isPrototypeOf'',
                ''propertyIsEnumerable'', ''toString'', ''valueOf'', ''toLocaleString'']"

definition object_prototype_names :: "jsstring list" where
  "object_prototype_names = object_prototype_functions @ [ascii ''__proto__'']"

text \<open>
  What the other built-in objects hold is not code of this program and differs between
  editions of the language; the \<open>runtime\<close> record holds it. \<open>inherited v key\<close> is the
  outcome of \<open>v[key]\<close> for a string, a number, a boolean or an array \<open>v\<close> that has no
  own property \<open>key\<close> (the lookup goes on in \<open>String.prototype\<close>, \<open>Number.prototype\<close>,
  ...; it yields \<open>undefined\<close> where the chain has no such member), and the outcome of any
  read \<open>v[key]\<close> of a built-in function or of a built-in object \<open>Other n\<close>.
  \<open>callable n\<close> says that \<open>typeof\<close> of \<open>Other n\<close> is \<open>function\<close>; for the others,
  \<open>builtin_json n gap indent\<close> is what \<open>JSON.stringify\<close> writes for \<open>Other n\<close>
  (\<open>None\<close> when it leaves the value out) and \<open>builtin_size n\<close> is what
  \<open>calculateValueSize\<close> returns for \<open>Other n\<close>, which it measures as an object through
  \<open>Object.entries\<close>. Of the built-in objects that property reads reach from a JSON value,
  none is an array and none has a method \<open>toJSON\<close>.
\<close>

record runtime =
  inherited :: "jsval \<Rightarrow> jsstring \<Rightarrow> js_error + jsval"
  callable :: "nat \<Rightarrow> bool"
  builtin_json :: "nat \<Rightarrow> jsstring \<Rightarrow> jsstring \<Rightarrow> jsstring option"
  builtin_size :: "nat \<Rightarrow> nat"

subsection \<open>Property access\<close>

text \<open>The decimal text of a natural number, as \<open>String(n)\<close> and a template literal give it.\<close>

function decimal :: "nat \<Rightarrow> string" where
  "decimal n =
     (if n < 10 then [''0123456789'' ! n]
      else decimal (n div 10) @ [''0123456789'' ! (n mod 10)])"
  by pat_completeness auto
termination
  by (relation "measure id") auto

declare decimal.simps [simp del]

definition is_digit :: "16 word \<Rightarrow> bool" where
  "is_digit c = (0x30 \<le> c \<and> c \<le> 0x39)"

text \<open>A key is an array index when it is the canonical decimal text of a number.\<close>

definition array_index :: "jsstring \<Rightarrow> nat option" where
  "array_index k =
     (if k \<noteq> [] \<and> list_all is_digit k \<and> (length k = 1 \<or> hd k \<noteq> 0x30)
      then Some (foldl (\<lambda>a c. 10 * a + (unat c - 48)) 0 k) else None)"

text \<open>
  An object enumerates its own properties with the array indices first, in ascending
  order, then the other keys in the order of their creation. \<open>property_order\<close> puts a
  list of distinct keys, given in the order of creation, into that order.
\<close>

definition is_array_index :: "jsstring \<Rightarrow> bool" where
  "is_array_index key = (case array_index key of Some i \<Rightarrow> i < 2 ^ 32 - 1 | None \<Rightarrow> False)"

definition index_of :: "jsstring \<Rightarrow> nat" where
  "index_of key = (case array_index key of Some i \<Rightarrow> i | None \<Rightarrow> 0)"

definition property_order :: "jsstring list \<Rightarrow> jsstring list" where
  "property_order keys =
     sort_key index_of (filter is_array_index keys)
       @ filter (\<lambda>key. \<not> is_array_index key) keys"

text \<open>
  \<open>Object.prototype[key]\<close>, as a plain object and \<open>Object.prototype\<close> itself see it.
  The getter of \<open>__proto__\<close> answers with the prototype of the object that is read:
  \<open>Object.prototype\<close> for a plain object, \<open>null\<close> for \<open>Object.prototype\<close>.
\<close>

definition object_prototype_member :: "jsval \<Rightarrow> jsstring \<Rightarrow> jsval" where
  "object_prototype_member proto key =
     (if key \<in> set object_prototype_functions then JBuiltin (ObjectFunction key)
      else if key = ascii ''__proto__'' then proto
      else JUndefined)"

text \<open>
  \<open>data[key]\<close>: reading a property of \<open>null\<close> or \<open>undefined\<close> throws a TypeError; an
  object answers with its own property, else with the member of that name of
  \<open>Object.prototype\<close>, else with \<open>undefined\<close>; a string and an array have \<open>length\<close> and
  their indices as own properties and inherit the rest; a number and a boolean inherit
  all they have.
\<close>

fun getProp :: "runtime \<Rightarrow> jsval \<Rightarrow> jsstring \<Rightarrow> js_error + jsval" where
  "getProp rt JUndefined key = Inl TypeError"
| "getProp rt JNull key = Inl TypeError"
| "getProp rt (JObj entries) key =
     Inr (case map_of entries key of
            Some v \<Rightarrow> v
          | None \<Rightarrow> object_prototype_member (JBuiltin ObjectPrototype) key)"
| "getProp rt (JStr s) key =
     (if key = ascii ''length'' then Inr (JNum (Finite (decimal (length s))))
      else case array_index key of
             Some i \<Rightarrow> if i < length s then Inr (JStr [s ! i]) else inherited rt (JStr s) key
           | None \<Rightarrow> inherited rt (JStr s) key)"
| "getProp rt (JArr xs) key =
     (if key = ascii ''length'' then Inr (JNum (Finite (decimal (length xs))))
      else case array_index key of
             Some i \<Rightarrow> if i < length xs then Inr (xs ! i) else inherited rt (JArr xs) key
           | None \<Rightarrow> inherited rt (JArr xs) key)"
| "getProp rt (JBool b) key = inherited rt (JBool b) key"
| "getProp rt (JNum n) key = inherited rt (JNum n) key"
| "getProp rt (JBuiltin ObjectPrototype) key = Inr (object_prototype_member JNull key)"
| "getProp rt (JBuiltin (ObjectFunction name)) key =
     inherited rt (JBuiltin (ObjectFunction name)) key"
| "getProp rt (JBuiltin (Other n)) key = inherited rt (JBuiltin (Other n)) key"

text \<open>
  \<open>setProp\<close> defines or overwrites an own property: the property is overwritten in
  place, or appended. \<open>assign\<close> is the assignment \<open>result[key] = v\<close> to an object that
  an object literal created: under the key \<open>__proto__\<close> it reaches the setter of
  \<open>Object.prototype\<close>, which may change the prototype of \<open>result\<close> and creates no
  property; every other member of \<open>Object.prototype\<close> is writable, so that the
  assignment defines an own property. \<open>JSON.stringify\<close> and \<open>Object.keys\<close> see own
  properties only. The changed prototype is not recorded: a later assignment to
  \<open>result\<close> is taken to define an own property as before, and a later read
  \<open>result[key]\<close> to go on in \<open>Object.prototype\<close>.
\<close>

fun setProp :: "(jsstring \<times> 'a) list \<Rightarrow> jsstring \<Rightarrow> 'a \<Rightarrow> (jsstring \<times> 'a) list" where
  "setProp [] key v = [(key, v)]"
| "setProp ((k, w) # rest) key v =
     (if k = key then (k, v) # rest else (k, w) # setProp rest key v)"

definition assign :: "(jsstring \<times> 'a) list \<Rightarrow> jsstring \<Rightarrow> 'a \<Rightarrow> (jsstring \<times> 'a) list" where
  "assign result key v = (if key = ascii ''__proto__'' then result else setProp result key v)"

fun isArray :: "jsval \<Rightarrow> bool" where
  "isArray (JArr xs) = True"
| "isArray v = False"

text \<open>\<open>typeof v === 'function'\<close>.\<close>

fun is_function :: "runtime \<Rightarrow> jsval \<Rightarrow> bool" where
  "is_function rt (JBuiltin (ObjectFunction name)) = True"
| "is_function rt (JBuiltin (Other n)) = callable rt n"
| "is_function rt v = False"

section \<open>Shape projector\<close>

text \<open>
  \<open>extractWithShape\<close>: \<open>extractItems\<close> is \<open>data.map(item => extractWithShape(item, shape))\<close>
  and \<open>extractKeys\<close> is the \<open>for (const key in shape)\<close> loop over the remaining entries,
  with the \<open>result\<close> object built so far. A TypeError thrown by a property read leaves
  every enclosing call.
\<close>

function extractWithShape :: "runtime \<Rightarrow> jsval \<Rightarrow> shape \<Rightarrow> js_error + jsval"
  and extractItems :: "runtime \<Rightarrow> jsval list \<Rightarrow> shape \<Rightarrow> js_error + jsval list"
  and extractKeys ::
    "runtime \<Rightarrow> jsval \<Rightarrow> shape \<Rightarrow> (jsstring \<times> jsval) list
       \<Rightarrow> js_error + (jsstring \<times> jsval) list"
where
  "extractWithShape rt data shape =
     (case data of
        JArr items \<Rightarrow>
          (case extractItems rt items shape of Inl e \<Rightarrow> Inl e | Inr rs \<Rightarrow> Inr (JArr rs))
      | _ \<Rightarrow>
          (case extractKeys rt data shape [] of
             Inl e \<Rightarrow> Inl e
           | Inr result \<Rightarrow> Inr (JObj result)))"
| "extractItems rt [] shape = Inr []"
| "extractItems rt (item # items) shape =
     (case extractWithShape rt item shape of
        Inl e \<Rightarrow> Inl e
      | Inr r \<Rightarrow>
          (case extractItems rt items shape of Inl e \<Rightarrow> Inl e | Inr rs \<Rightarrow> Inr (r # rs)))"
| "extractKeys rt data [] result = Inr result"
| "extractKeys rt data ((key, rule) # rest) result =
     (case rule of
        Include \<Rightarrow>
          (case getProp rt data key of
             Inl e \<Rightarrow> Inl e
           | Inr v \<Rightarrow> extractKeys rt data rest (assign result key v))
      | Nested sub \<Rightarrow>
          (case getProp rt data key of
             Inl e \<Rightarrow> Inl e
           | Inr v \<Rightarrow>
               if v \<noteq> JUndefined
               then (case extractWithShape rt v sub of
                       Inl e \<Rightarrow> Inl e
                     | Inr r \<Rightarrow> extractKeys rt data rest (assign result key r))
               else extractKeys rt data rest result)
      | Ignored \<Rightarrow> extractKeys rt data rest result)"
  by pat_completeness auto
termination
  by (relation "inv_image (less_than <*lex*> less_than <*lex*> less_than)
     (\<lambda>x. case x of
        Inl (rt, d, s) \<Rightarrow> (size_list (size_prod (\<lambda>_. 0) size) s, size d, 1::nat)
      | Inr (Inl (rt, ds, s)) \<Rightarrow> (size_list (size_prod (\<lambda>_. 0) size) s, size_list size ds, 2)
      | Inr (Inr (rt, d, s, r)) \<Rightarrow> (size_list (size_prod (\<lambda>_. 0) size) s, size d, 0))")
    auto

section \<open>JSON serialization\<close>

text \<open>
  \<open>JSON.stringify(value, null, gap)\<close> after ECMAScript's SerializeJSONProperty, for the
  values above; \<open>gap\<close> is empty for the compact form and two spaces in the
  \<open>json_filter\<close> handler. \<open>json_members\<close> is the list of the members an object
  contributes (key and serialized value): a property holding \<open>undefined\<close> or a function
  contributes none, while such an array element is written \<open>null\<close>.
  \<open>Object.prototype\<close> has no enumerable property and is written \<open>{}\<close>.
\<close>

definition is_high_surrogate :: "16 word \<Rightarrow> bool" where
  "is_high_surrogate c = (0xD800 \<le> c \<and> c \<le> 0xDBFF)"

definition is_low_surrogate :: "16 word \<Rightarrow> bool" where
  "is_low_surrogate c = (0xDC00 \<le> c \<and> c \<le> 0xDFFF)"

definition hex4 :: "16 word \<Rightarrow> jsstring" where
  "hex4 c = map (\<lambda>i. ascii ''0123456789abcdef'' ! (unat (drop_bit i c) mod 16)) [12, 8, 4, 0]"

definition unicode_escape :: "16 word \<Rightarrow> jsstring" where
  "unicode_escape c = ascii [CHR 0x5C, CHR ''u''] @ hex4 c"

definition escape_unit :: "16 word \<Rightarrow> jsstring" where
  "escape_unit c =
     (if c = 0x08 then ascii [CHR 0x5C, CHR ''b'']
      else if c = 0x09 then ascii [CHR 0x5C, CHR ''t'']
      else if c = 0x0A then ascii [CHR 0x5C, CHR ''n'']
      else if c = 0x0C then ascii [CHR 0x5C, CHR ''f'']
      else if c = 0x0D then ascii [CHR 0x5C, CHR ''r'']
      else if c = 0x22 then ascii [CHR 0x5C, CHR 0x22]
      else if c = 0x5C then ascii [CHR 0x5C, CHR 0x5C]
      else if c < 0x20 \<or> is_high_surrogate c \<or> is_low_surrogate c then unicode_escape c
      else [c])"

fun quote_units :: "jsstring \<Rightarrow> jsstring" where
  "quote_units [] = []"
| "quote_units [c] = escape_unit c"
| "quote_units (c # d # cs) =
     (if is_high_surrogate c \<and> is_low_surrogate d then c # d # quote_units cs
      else escape_unit c @ quote_units (d # cs))"

definition QuoteJSONString :: "jsstring \<Rightarrow> jsstring" where
  "QuoteJSONString s = [0x22] @ quote_units s @ [0x22]"

fun join :: "jsstring \<Rightarrow> jsstring list \<Rightarrow> jsstring" where
  "join sep [] = []"
| "join sep [p] = p"
| "join sep (p # q # ps) = p @ sep @ join sep (q # ps)"

definition wrap :: "string \<Rightarrow> string \<Rightarrow> jsstring \<Rightarrow> jsstring \<Rightarrow> jsstring list \<Rightarrow> jsstring" where
  "wrap opener closer gap stepback partial =
     (if partial = [] then ascii opener @ ascii closer
      else if gap = [] then ascii opener @ join (ascii '','') partial @ ascii closer
      else ascii opener @ [0x0A] @ stepback @ gap
           @ join (ascii '','' @ [0x0A] @ stepback @ gap) partial
           @ [0x0A] @ stepback @ ascii closer)"

definition member_text :: "jsstring \<Rightarrow> jsstring \<times> jsstring \<Rightarrow> jsstring" where
  "member_text gap m =
     QuoteJSONString (fst m) @ ascii '':'' @ (if gap = [] then [] else ascii '' '') @ snd m"

fun number_toString :: "jsnumber \<Rightarrow> string" where
  "number_toString (Finite t) = t"
| "number_toString PosInfinity = ''Infinity''"
| "number_toString NegInfinity = ''-Infinity''"
| "number_toString NaN = ''NaN''"

fun SerializeJSONProperty :: "runtime \<Rightarrow> jsstring \<Rightarrow> jsstring \<Rightarrow> jsval \<Rightarrow> jsstring option"
  and json_members ::
    "runtime \<Rightarrow> jsstring \<Rightarrow> jsstring \<Rightarrow> (jsstring \<times> jsval) list \<Rightarrow> (jsstring \<times> jsstring) list"
  and json_elements :: "runtime \<Rightarrow> jsstring \<Rightarrow> jsstring \<Rightarrow> jsval list \<Rightarrow> jsstring list"
where
  "SerializeJSONProperty rt gap indent JUndefined = None"
| "SerializeJSONProperty rt gap indent JNull = Some (ascii ''null'')"
| "SerializeJSONProperty rt gap indent (JBool b) = Some (ascii (if b then ''true'' else ''false''))"
| "SerializeJSONProperty rt gap indent (JNum n) =
     Some (case n of Finite t \<Rightarrow> ascii t | _ \<Rightarrow> ascii ''null'')"
| "SerializeJSONProperty rt gap indent (JStr s) = Some (QuoteJSONString s)"
| "SerializeJSONProperty rt gap indent (JArr xs) =
     Some (wrap ''['' '']'' gap indent (json_elements rt gap (indent @ gap) xs))"
| "SerializeJSONProperty rt gap indent (JObj entries) =
     Some (wrap ''{'' ''}'' gap indent
             (map (member_text gap) (json_members rt gap (indent @ gap) entries)))"
| "SerializeJSONProperty rt gap indent (JBuiltin (ObjectFunction name)) = None"
| "SerializeJSONProperty rt gap indent (JBuiltin ObjectPrototype) =
     Some (wrap ''{'' ''}'' gap indent [])"
| "SerializeJSONProperty rt gap indent (JBuiltin (Other n)) =
     (if callable rt n then None else builtin_json rt n gap indent)"
| "json_members rt gap indent [] = []"
| "json_members rt gap indent ((k, v) # entries) =
     (case SerializeJSONProperty rt gap indent v of
        None \<Rightarrow> json_members rt gap indent entries
      | Some t \<Rightarrow> (k, t) # json_members rt gap indent entries)"
| "json_elements rt gap indent [] = []"
| "json_elements rt gap indent (x # xs) =
     (case SerializeJSONProperty rt gap indent x of None \<Rightarrow> ascii ''null'' | Some t \<Rightarrow> t)
       # json_elements rt gap indent xs"

definition JSON_stringify :: "runtime \<Rightarrow> jsstring \<Rightarrow> jsval \<Rightarrow> jsstring option" where
  "JSON_stringify rt gap v = SerializeJSONProperty rt gap [] v"

subsection \<open>UTF-8 length\<close>

text \<open>
  \<open>new TextEncoder().encode(s).length\<close>: one to three bytes for a code unit, four for a
  surrogate pair; a lone surrogate is encoded as U+FFFD (three bytes).
\<close>

definition unit_bytes :: "16 word \<Rightarrow> nat" where
  "unit_bytes c = (if c < 0x80 then 1 else if c < 0x800 then 2 else 3)"

fun utf8_length :: "jsstring \<Rightarrow> nat" where
  "utf8_length [] = 0"
| "utf8_length [c] = unit_bytes c"
| "utf8_length (c # d # cs) =
     (if is_high_surrogate c \<and> is_low_surrogate d then 4 + utf8_length cs
      else unit_bytes c + utf8_length (d # cs))"

section \<open>Ingestion\<close>

text \<open>
  The strategies talk to the file system and the network. The \<open>world\<close> record holds
  what those answer: \<open>path.resolve\<close>, \<open>fs.stat\<close> (the size, or \<open>None\<close> when it
  rejects), \<open>fs.readFile\<close>, \<open>JSON.parse\<close> (\<open>None\<close> when it throws), the protocol of
  \<open>new URL(source)\<close> (\<open>None\<close> when the constructor throws) and the outcome of
  \<open>fetch\<close>. Every \<open>ingest\<close> returns its result together with the list of the
  operations it performed, in order. Header names are looked up in lower case, as
  \<open>Headers.get\<close> ignores case. The outermost \<open>try/catch\<close> of each \<open>ingest\<close> has no
  branch here: every operation that can throw sits in an inner \<open>try\<close>.
\<close>

datatype error_type =
    file_not_found | invalid_json | network_error | invalid_url | unsupported_content_type
  | rate_limit_exceeded | validation_error | authentication_required | server_error
  | content_too_large | quicktype_error

datatype detail =
    DNumber nat | DString string | DText jsstring | DNames "string list" | DCaught | DUndefined

datatype details = Caught | Fields "(string \<times> detail) list"

record JsonIngestionError =
  type :: error_type
  message :: string
  details :: details

datatype JsonIngestionResult = Success jsstring | Failure JsonIngestionError

datatype io = Stat string | ReadFile string | Fetch string | ReadBody

record Response =
  status :: nat
  statusText :: string
  headers :: "string \<Rightarrow> string option"
  body :: "jsstring option"

datatype fetch_outcome = Aborted | Rejected string | Responded Response

record world =
  resolve :: "string \<Rightarrow> string"
  stat :: "string \<Rightarrow> nat option"
  readFile :: "string \<Rightarrow> jsstring option"
  JSON_parse :: "jsstring \<Rightarrow> jsval option"
  URL_protocol :: "string \<Rightarrow> string option"
  fetch :: "string \<Rightarrow> fetch_outcome"

text \<open>A named field of the \<open>details\<close> object of an error.\<close>

definition detail_of :: "JsonIngestionError \<Rightarrow> string \<Rightarrow> detail option" where
  "detail_of e name = (case details e of Caught \<Rightarrow> None | Fields fs \<Rightarrow> map_of fs name)"

definition startsWith :: "string \<Rightarrow> string \<Rightarrow> bool" where
  "startsWith s p = (take (length p) s = p)"

text \<open>
  \<open>Math.round(n / 1024 / 1024)\<close> for a byte count \<open>n\<close>: dividing a double by a power
  of two is exact, and \<open>Math.round\<close> rounds halves up.
\<close>

definition round_mb :: "nat \<Rightarrow> nat" where
  "round_mb n = (n + 524288) div 1048576"

definition validateJsonContent :: "world \<Rightarrow> jsstring \<Rightarrow> JsonIngestionResult" where
  "validateJsonContent w content =
     (if JSON_parse w content \<noteq> None then Success content
      else Failure \<lparr>type = invalid_json, message = ''Invalid JSON format in content'',
                    details = Caught\<rparr>)"

subsection \<open>Local files\<close>

text \<open>
  \<open>LocalFileStrategy\<close>, in the revision that stats the file and compares its size with
  \<open>maxFileSize\<close> before reading it.
\<close>

definition maxFileSize :: nat where
  "maxFileSize = 50 * 1024 * 1024"

definition LocalFileStrategy_canHandle :: "string \<Rightarrow> bool" where
  "LocalFileStrategy_canHandle source =
     (\<not> startsWith source ''http://'' \<and> \<not> startsWith source ''https://'')"

definition LocalFileStrategy_ingest :: "world \<Rightarrow> string \<Rightarrow> JsonIngestionResult \<times> io list" where
  "LocalFileStrategy_ingest w source =
     (let resolvedPath = resolve w source in
      case stat w resolvedPath of
        None \<Rightarrow>
          (Failure \<lparr>type = file_not_found, message = ''File not found: '' @ resolvedPath,
                    details = Caught\<rparr>,
           [Stat resolvedPath])
      | Some fileStats_size \<Rightarrow>
          if fileStats_size > maxFileSize
          then (Failure \<lparr>type = content_too_large,
                  message = ''File too large ('' @ decimal (round_mb fileStats_size)
                    @ ''MB). This tool is optimized for JSON files under ''
                    @ decimal (round_mb maxFileSize) @ ''MB.'',
                  details = Fields [(''fileSize'', DNumber fileStats_size), (''maxSize'', DNumber maxFileSize),
                                    (''filePath'', DString resolvedPath)]\<rparr>,
                [Stat resolvedPath])
          else (case readFile w resolvedPath of
                  None \<Rightarrow>
                    (Failure \<lparr>type = file_not_found,
                        message = ''Failed to read file: '' @ resolvedPath, details = Caught\<rparr>,
                     [Stat resolvedPath, ReadFile resolvedPath])
                | Some jsonContent \<Rightarrow>
                    (validateJsonContent w jsonContent,
                     [Stat resolvedPath, ReadFile resolvedPath])))"

subsection \<open>HTTP and HTTPS\<close>

definition requestTimeout :: nat where
  "requestTimeout = 10000"

definition maxResponseSize :: nat where
  "maxResponseSize = 50 * 1024 * 1024"

text \<open>\<open>response.ok\<close>: the status is in the range 200 to 299.\<close>

definition ok :: "Response \<Rightarrow> bool" where
  "ok response = (200 \<le> status response \<and> status response \<le> 299)"

text \<open>
  \<open>parseInt(s, 10)\<close>: leading white space, an optional sign, then the longest run of
  decimal digits; \<open>None\<close> is \<open>NaN\<close>. A header value is a byte string, so only the white
  space below U+0100 occurs. JavaScript rounds a long run of digits to a double; the
  exact integer kept here compares with the cap in the same way, since the cap is an
  integer that a double holds exactly, and it is the value that JavaScript reports as
  long as it is below \<open>2^53\<close>.
\<close>

definition is_whitespace_char :: "char \<Rightarrow> bool" where
  "is_whitespace_char c = (of_char c \<in> {9, 10, 11, 12, 13, 32, 160 :: nat})"

definition is_digit_char :: "char \<Rightarrow> bool" where
  "is_digit_char c = (48 \<le> (of_char c :: nat) \<and> (of_char c :: nat) \<le> 57)"

definition digits_value :: "string \<Rightarrow> int" where
  "digits_value ds = foldl (\<lambda>a c. 10 * a + (of_char c - 48)) 0 ds"

definition parseInt :: "string \<Rightarrow> int option" where
  "parseInt s =
     (let t = dropWhile is_whitespace_char s;
          negative = (t \<noteq> [] \<and> hd t = CHR ''-'');
          u = (if t \<noteq> [] \<and> (hd t = CHR ''-'' \<or> hd t = CHR ''+'') then tl t else t);
          ds = takeWhile is_digit_char u
      in if ds = [] then None
         else Some (if negative then - digits_value ds else digits_value ds))"

text \<open>
  What the response sniffing uses of the string library. \<open>toLowerCase\<close> maps the ASCII
  capitals only: no character beyond ASCII lower-cases to a character of the patterns
  searched for. \<open>includes_str\<close> is \<open>String.prototype.includes\<close> and \<open>trim_is_empty s\<close> is
  \<open>s.trim() === ''\<close>. \<open>truthy\<close> is the test \<open>if (h)\<close> and the idiom \<open>h || undefined\<close> on
  the result of \<open>headers.get\<close>: a missing and an empty value are both falsy.
\<close>

definition toLowerCase :: "jsstring \<Rightarrow> jsstring" where
  "toLowerCase s = map (\<lambda>c. if 0x41 \<le> c \<and> c \<le> 0x5A then c + 0x20 else c) s"

fun includes_str :: "jsstring \<Rightarrow> jsstring \<Rightarrow> bool" where
  "includes_str [] p = (p = [])"
| "includes_str (c # cs) p = (take (length p) (c # cs) = p \<or> includes_str cs p)"

definition is_js_whitespace :: "16 word \<Rightarrow> bool" where
  "is_js_whitespace c =
     (c \<in> {0x09, 0x0A, 0x0B, 0x0C, 0x0D, 0x20, 0xA0, 0x1680, 0x2028, 0x2029, 0x202F, 0x205F,
            0x3000, 0xFEFF} \<or> (0x2000 \<le> c \<and> c \<le> 0x200A))"

definition trim_is_empty :: "jsstring \<Rightarrow> bool" where
  "trim_is_empty s = list_all is_js_whitespace s"

definition truthy :: "string option \<Rightarrow> string option" where
  "truthy h = (case h of Some v \<Rightarrow> if v = [] then None else Some v | None \<Rightarrow> None)"

text \<open>
  \<open>HttpJsonStrategy.ingest\<close> in four parts: \<open>notOkResponse\<close> is the block under
  \<open>if (!response.ok)\<close>, \<open>contentLengthExceeds\<close> the test of the \<open>Content-Length\<close> header
  (the parsed value when it is above the cap), \<open>invalidJsonResponse\<close> the error built
  when validation fails, \<open>okResponse\<close> everything after the status check.
\<close>

definition notOkResponse :: "string \<Rightarrow> Response \<Rightarrow> JsonIngestionResult \<times> io list" where
  "notOkResponse source response =
     (if status response = 401 \<or> status response = 403
      then
        (let errorMessage =
               (if status response = 401
                then ''Authentication required: This endpoint needs valid credentials. Verify this is a public API endpoint.''
                else if status response = 403
                then ''Access forbidden: This endpoint may require authentication, be restricted by region, or have IP restrictions. Verify this is a publicly accessible endpoint.''
                else ''This endpoint requires authentication or access is denied.'');
             responsePreview = (case body response of None \<Rightarrow> [] | Some responseText \<Rightarrow> take 200 responseText)
         in (Failure \<lparr>type = authentication_required, message = errorMessage,
               details = Fields [(''status'', DNumber (status response)),
                                 (''statusText'', DString (statusText response)),
                                 (''url'', DString source),
                                 (''responsePreview'',
                                    if responsePreview = [] then DUndefined else DText responsePreview)]\<rparr>,
             [ReadBody]))
      else if status response = 429
      then (Failure \<lparr>type = rate_limit_exceeded,
              message = ''API rate limit exceeded. Please wait before making more requests to this endpoint.'',
              details = Fields [(''status'', DNumber (status response)),
                                (''statusText'', DString (statusText response)),
                                (''url'', DString source),
                                (''retryAfter'',
                                   case truthy (headers response ''retry-after'') of
                                     None \<Rightarrow> DUndefined | Some v \<Rightarrow> DString v)]\<rparr>,
            [])
      else if status response \<ge> 500
      then (Failure \<lparr>type = server_error,
              message = ''Server error (HTTP '' @ decimal (status response)
                @ ''): This is likely a temporary issue with the endpoint. Try again later.'',
              details = Fields [(''status'', DNumber (status response)),
                                (''statusText'', DString (statusText response)),
                                (''url'', DString source)]\<rparr>,
            [])
      else (Failure \<lparr>type = network_error,
              message = ''HTTP '' @ decimal (status response) @ '': '' @ statusText response @ ''. ''
                @ (if status response = 404 then ''Endpoint not found - verify the URL is correct.''
                   else ''Client error occurred.''),
              details = Fields [(''status'', DNumber (status response)),
                                (''statusText'', DString (statusText response)),
                                (''url'', DString source)]\<rparr>,
            []))"

definition contentLengthExceeds :: "Response \<Rightarrow> nat option" where
  "contentLengthExceeds response =
     (case truthy (headers response ''content-length'') of
        None \<Rightarrow> None
      | Some contentLength \<Rightarrow>
          (case parseInt contentLength of
             None \<Rightarrow> None
           | Some n \<Rightarrow> if n > int maxResponseSize then Some (nat n) else None))"

definition invalidJsonResponse :: "string \<Rightarrow> Response \<Rightarrow> jsstring \<Rightarrow> JsonIngestionResult" where
  "invalidJsonResponse source response content =
     (let contentType = (case truthy (headers response ''content-type'') of
                           None \<Rightarrow> ''unknown'' | Some v \<Rightarrow> v);
          contentPreview = take 200 content;
          enhancedMessage = ''Response content is not valid JSON. Content-Type: '' @ contentType @ ''.''
            @ (if includes_str (toLowerCase contentPreview) (ascii ''<!doctype html'')
                  \<or> includes_str (toLowerCase contentPreview) (ascii ''<html'')
               then '' The response appears to be HTML - verify the URL points to a JSON endpoint, not a web page.''
               else if includes_str (toLowerCase contentPreview) (ascii ''<?xml'')
               then '' The response appears to be XML - this tool only supports JSON format.''
               else if trim_is_empty contentPreview
               then '' The response is empty - the endpoint may not be returning data.''
               else '' Verify the endpoint returns valid JSON format.'')
      in Failure \<lparr>type = invalid_json, message = enhancedMessage,
            details = Fields [(''contentType'', DString contentType), (''url'', DString source),
                              (''contentPreview'', DText contentPreview),
                              (''responseSize'', DNumber (length content))]\<rparr>)"

definition okResponse :: "world \<Rightarrow> string \<Rightarrow> Response \<Rightarrow> JsonIngestionResult \<times> io list" where
  "okResponse w source response =
     (case contentLengthExceeds response of
        Some n \<Rightarrow>
          (Failure \<lparr>type = content_too_large,
             message = ''Response too large ('' @ decimal (round_mb n)
               @ ''MB). This tool is optimized for JSON files under ''
               @ decimal (round_mb maxResponseSize) @ ''MB.'',
             details = Fields [(''contentLength'', DNumber n), (''maxSize'', DNumber maxResponseSize),
                               (''url'', DString source)]\<rparr>,
           [])
      | None \<Rightarrow>
          (case body response of
             None \<Rightarrow>
               (Failure \<lparr>type = network_error,
                  message = ''Failed to read response content. This may be due to network issues or the response being too large.'',
                  details = Fields [(''error'', DCaught), (''url'', DString source)]\<rparr>,
                [ReadBody])
           | Some content \<Rightarrow>
               (let actualSize = utf8_length content in
                if actualSize > maxResponseSize
                then (Failure \<lparr>type = content_too_large,
                        message = ''Response too large ('' @ decimal (round_mb actualSize)
                          @ ''MB after reading). This tool is optimized for JSON files under ''
                          @ decimal (round_mb maxResponseSize) @ ''MB.'',
                        details = Fields [(''actualSize'', DNumber actualSize),
                                          (''maxSize'', DNumber maxResponseSize),
                                          (''url'', DString source)]\<rparr>,
                      [ReadBody])
                else (case validateJsonContent w content of
                        Failure e \<Rightarrow> (invalidJsonResponse source response content, [ReadBody])
                      | Success c \<Rightarrow> (Success c, [ReadBody])))))"

definition HttpJsonStrategy_canHandle :: "string \<Rightarrow> bool" where
  "HttpJsonStrategy_canHandle source =
     (startsWith source ''http://'' \<or> startsWith source ''https://'')"

definition HttpJsonStrategy_ingest :: "world \<Rightarrow> string \<Rightarrow> JsonIngestionResult \<times> io list" where
  "HttpJsonStrategy_ingest w source =
     (case URL_protocol w source of
        None \<Rightarrow>
          (Failure \<lparr>type = invalid_url, message = ''Invalid URL format: '' @ source,
                    details = Caught\<rparr>, [])
      | Some protocol \<Rightarrow>
          if protocol \<noteq> ''http:'' \<and> protocol \<noteq> ''https:''
          then (Failure \<lparr>type = invalid_url, message = ''Only HTTP and HTTPS URLs are supported'',
                         details = Fields [(''protocol'', DString protocol)]\<rparr>, [])
          else (case fetch w source of
                  Aborted \<Rightarrow>
                    (Failure \<lparr>type = network_error,
                       message = ''Request timeout after '' @ decimal requestTimeout @ ''ms'',
                       details = Caught\<rparr>,
                     [Fetch source])
                | Rejected error_message \<Rightarrow>
                    (Failure \<lparr>type = network_error,
                       message = ''Failed to fetch from '' @ source @ '': '' @ error_message,
                       details = Caught\<rparr>,
                     [Fetch source])
                | Responded response \<Rightarrow>
                    (let (result, ios) =
                           (if \<not> ok response then notOkResponse source response
                            else okResponse w source response)
                     in (result, Fetch source # ios))))"

subsection \<open>Strategy resolution\<close>

text \<open>
  The context registers \<open>LocalFileStrategy\<close> first and \<open>HttpJsonStrategy\<close> second;
  \<open>findStrategy\<close> is \<open>strategies.find(strategy => strategy.canHandle(source)) || null\<close>.
\<close>

record JsonIngestionStrategy =
  canHandle :: "string \<Rightarrow> bool"
  ingest :: "world \<Rightarrow> string \<Rightarrow> JsonIngestionResult \<times> io list"
  getMetadata_name :: string

definition LocalFileStrategy :: JsonIngestionStrategy where
  "LocalFileStrategy =
     \<lparr>canHandle = LocalFileStrategy_canHandle, ingest = LocalFileStrategy_ingest,
      getMetadata_name = ''LocalFileStrategy''\<rparr>"

definition HttpJsonStrategy :: JsonIngestionStrategy where
  "HttpJsonStrategy =
     \<lparr>canHandle = HttpJsonStrategy_canHandle, ingest = HttpJsonStrategy_ingest,
      getMetadata_name = ''HttpJsonStrategy''\<rparr>"

definition strategies :: "JsonIngestionStrategy list" where
  "strategies = [LocalFileStrategy, HttpJsonStrategy]"

definition findStrategy :: "string \<Rightarrow> JsonIngestionStrategy option" where
  "findStrategy source = find (\<lambda>strategy. canHandle strategy source) strategies"

definition JsonIngestionContext_ingest :: "world \<Rightarrow> string \<Rightarrow> JsonIngestionResult \<times> io list" where
  "JsonIngestionContext_ingest w source =
     (case findStrategy source of
        None \<Rightarrow>
          (Failure \<lparr>type = validation_error,
             message = ''No strategy found to handle source: '' @ source,
             details = Fields [(''source'', DString source),
                               (''availableStrategies'', DNames (map getMetadata_name strategies))]\<rparr>,
           [])
      | Some strategy \<Rightarrow> ingest strategy w source)"

section \<open>The filter tool\<close>

text \<open>
  \<open>processJsonFilter\<close> ingests, parses and projects; an exception of the projector is
  caught and reported as a \<open>validation_error\<close>.
\<close>

definition processJsonFilter ::
  "runtime \<Rightarrow> world \<Rightarrow> string \<Rightarrow> shape \<Rightarrow> JsonIngestionError + jsval" where
  "processJsonFilter rt w filePath shape =
     (case fst (JsonIngestionContext_ingest w filePath) of
        Failure error \<Rightarrow> Inl error
      | Success content \<Rightarrow>
          (case JSON_parse w content of
             None \<Rightarrow>
               Inl \<lparr>type = invalid_json, message = ''Invalid JSON format in content'',
                    details = Caught\<rparr>
           | Some parsedData \<Rightarrow>
               (case extractWithShape rt parsedData shape of
                  Inl e \<Rightarrow>
                    Inl \<lparr>type = validation_error, message = ''Failed to apply shape filter'',
                         details = Caught\<rparr>
                | Inr filteredData \<Rightarrow> Inr filteredData)))"

text \<open>
  The \<open>json_filter\<close> handler, for a shape that is given as an object or as JSON text that
  parses. It first runs \<open>JsonFilterInputSchema.parse\<close>, whose refinement of \<open>filePath\<close>
  is \<open>filePath_accepted\<close>; a rejected path is answered with \<open>Validation error: \<close>
  followed by the message that the schema library composes, which \<open>ValidationError\<close>
  stands for. Otherwise the handler prints the projection with
  \<open>JSON.stringify(filteredData, null, 2)\<close>, or the error message.
\<close>

definition filePath_accepted :: "string \<Rightarrow> bool" where
  "filePath_accepted val =
     (length val > 0 \<and>
      (startsWith val ''./'' \<or> startsWith val ''/'' \<or> startsWith val ''http://''
       \<or> startsWith val ''https://'' \<or> CHR ''/'' \<notin> set val))"

datatype tool_text = Text "jsstring option" | ValidationError

record tool_result =
  content :: tool_text
  isError :: bool

definition json_filter :: "runtime \<Rightarrow> world \<Rightarrow> string \<Rightarrow> shape \<Rightarrow> tool_result" where
  "json_filter rt w filePath shape =
     (if \<not> filePath_accepted filePath then \<lparr>content = ValidationError, isError = True\<rparr>
      else case processJsonFilter rt w filePath shape of
             Inr filteredData \<Rightarrow>
               \<lparr>content = Text (JSON_stringify rt (ascii ''  '') filteredData), isError = False\<rparr>
           | Inl error \<Rightarrow>
               \<lparr>content = Text (Some (ascii (''Error: '' @ message error))), isError = True\<rparr>)"

section \<open>Size accountant\<close>

text \<open>
  \<open>calculateValueSize\<close>: \<open>sizeOfItems\<close> is the loop over the elements of an array and
  \<open>sizeOfEntries\<close> the loop over \<open>Object.entries(value)\<close> without the \<open>undefined\<close>
  ones; each adds one byte for a comma after every element but the last. A key is
  measured as \<open>"${key}"\<close>, the key between two quotation marks, as it stands. A
  function matches no test and counts 0; \<open>Object.prototype\<close> is an object without
  entries.
\<close>

lemma size_list_filter_le: "size_list f (filter P xs) \<le> size_list f xs"
  by (induction xs) auto

function calculateValueSize :: "runtime \<Rightarrow> jsval \<Rightarrow> nat"
  and sizeOfItems :: "runtime \<Rightarrow> jsval list \<Rightarrow> nat"
  and sizeOfEntries :: "runtime \<Rightarrow> (jsstring \<times> jsval) list \<Rightarrow> nat"
where
  "calculateValueSize rt JNull = utf8_length (ascii ''null'')"
| "calculateValueSize rt JUndefined = 0"
| "calculateValueSize rt (JStr s) = utf8_length (QuoteJSONString s)"
| "calculateValueSize rt (JNum n) = utf8_length (ascii (number_toString n))"
| "calculateValueSize rt (JBool b) = utf8_length (ascii (if b then ''true'' else ''false''))"
| "calculateValueSize rt (JArr xs) = 2 + sizeOfItems rt xs"
| "calculateValueSize rt (JObj obj) =
     2 + sizeOfEntries rt (filter (\<lambda>entry. snd entry \<noteq> JUndefined) obj)"
| "calculateValueSize rt (JBuiltin (ObjectFunction name)) = 0"
| "calculateValueSize rt (JBuiltin ObjectPrototype) = 2"
| "calculateValueSize rt (JBuiltin (Other n)) = (if callable rt n then 0 else builtin_size rt n)"
| "sizeOfItems rt [] = 0"
| "sizeOfItems rt (x # xs) =
     calculateValueSize rt x + (if xs \<noteq> [] then 1 else 0) + sizeOfItems rt xs"
| "sizeOfEntries rt [] = 0"
| "sizeOfEntries rt ((key, val) # entries) =
     utf8_length ([0x22] @ key @ [0x22]) + 1 + calculateValueSize rt val
       + (if entries \<noteq> [] then 1 else 0) + sizeOfEntries rt entries"
  by pat_completeness auto
termination
  by (relation "measure (\<lambda>x. case x of
        Inl (rt, v) \<Rightarrow> size v
      | Inr (Inl (rt, xs)) \<Rightarrow> size_list size xs
      | Inr (Inr (rt, es)) \<Rightarrow> size_list (size_prod (\<lambda>_. 0) size) es)")
    (auto simp: less_Suc_eq_le size_list_filter_le)

text \<open>
  A size breakdown is a number or an object of breakdowns, which an object literal
  created. The merge reads such an object with \<open>breakdown[key]\<close>, through its prototype,
  so that it also meets the functions of \<open>Object.prototype\<close> (\<open>BuiltinFunction name\<close> is
  the one stored under \<open>name\<close>) and \<open>Object.prototype\<close> itself (\<open>PrototypeObject\<close>, read
  under \<open>__proto__\<close>).
\<close>

datatype breakdown =
    Size nat
  | Breakdown "(jsstring \<times> breakdown) list"
  | BuiltinFunction jsstring
  | PrototypeObject

text \<open>
  \<open>is_number b\<close> is \<open>typeof b === 'number'\<close> and \<open>is_object b\<close> is
  \<open>typeof b === 'object'\<close>; \<open>Object_keys\<close> lists the enumerable own
  properties, of which \<open>Object.prototype\<close> has none. \<open>valueOrZero\<close> is
  \<open>breakdown[key] || 0\<close> for such an object: its own property, else the member of
  \<open>Object.prototype\<close> of that name, else 0 (a missing key, the number 0 and the \<open>null\<close>
  that the getter of \<open>__proto__\<close> gives for \<open>Object.prototype\<close> are falsy; objects and
  functions are truthy). \<open>allKeys\<close> is the \<open>Set\<close> of the keys of both objects in
  insertion order. For each of them, in that order, the merge assigns \<open>result[key]\<close>,
  which defines a new property, but for the key \<open>__proto__\<close>, which defines none (see
  \<open>assign\<close>); \<open>resultKeys\<close> lists the keys of the result as it enumerates them.
\<close>

fun is_number :: "breakdown \<Rightarrow> bool" where
  "is_number (Size n) = True"
| "is_number b = False"

fun number_of :: "breakdown \<Rightarrow> nat" where
  "number_of (Size n) = n"

fun is_object :: "breakdown \<Rightarrow> bool" where
  "is_object (Breakdown entries) = True"
| "is_object PrototypeObject = True"
| "is_object b = False"

fun Object_keys :: "breakdown \<Rightarrow> jsstring list" where
  "Object_keys (Breakdown entries) = map fst entries"
| "Object_keys b = []"

fun valueOrZero :: "breakdown \<Rightarrow> jsstring \<Rightarrow> breakdown" where
  "valueOrZero (Breakdown entries) key =
     (case map_of entries key of
        Some v \<Rightarrow> v
      | None \<Rightarrow>
          if key \<in> set object_prototype_functions then BuiltinFunction key
          else if key = ascii ''__proto__'' then PrototypeObject
          else Size 0)"
| "valueOrZero PrototypeObject key =
     (if key \<in> set object_prototype_functions then BuiltinFunction key else Size 0)"

definition allKeys :: "breakdown \<Rightarrow> breakdown \<Rightarrow> jsstring list" where
  "allKeys breakdown1 breakdown2 =
     rev (remdups (rev (Object_keys breakdown1 @ Object_keys breakdown2)))"

definition resultKeys :: "breakdown \<Rightarrow> breakdown \<Rightarrow> jsstring list" where
  "resultKeys breakdown1 breakdown2 =
     property_order (filter (\<lambda>key. key \<noteq> ascii ''__proto__'')
                            (allKeys breakdown1 breakdown2))"

fun truthy_breakdown :: "breakdown \<Rightarrow> bool" where
  "truthy_breakdown (Size n) = (n \<noteq> 0)"
| "truthy_breakdown b = True"

lemma size_own_entry:
  "map_of entries key = Some v \<Longrightarrow> size v \<le> size_list (size_prod (\<lambda>_. 0) size) entries"
proof -
  assume "map_of entries key = Some v"
  then have "(key, v) \<in> set entries" by (rule map_of_SomeD)
  then show ?thesis by (induction entries) auto
qed

lemma size_valueOrZero:
  "is_object b \<Longrightarrow> size (valueOrZero b key) \<le> size b"
  "key \<in> set (Object_keys b) \<Longrightarrow> size (valueOrZero b key) < size b"
proof -
  show "size (valueOrZero b key) \<le> size b" if "is_object b"
  proof (cases b)
    case (Breakdown entries)
    then show ?thesis
      using size_own_entry [of entries key] by (auto split: option.splits)
  qed (use that in auto)
  show "size (valueOrZero b key) < size b" if "key \<in> set (Object_keys b)"
  proof (cases b)
    case (Breakdown entries)
    with that obtain v where v: "map_of entries key = Some v"
      by (cases "map_of entries key") (auto simp: map_of_eq_None_iff)
    from size_own_entry [OF v] Breakdown v show ?thesis by simp
  qed (use that in auto)
qed

lemma set_property_order: "set (property_order keys) = set keys"
  by (auto simp: property_order_def)

lemma set_resultKeys:
  "set (resultKeys a b) = set (Object_keys a) \<union> set (Object_keys b) - {ascii ''__proto__''}"
  by (auto simp: resultKeys_def allKeys_def set_property_order)

lemma size_merge_operands:
  assumes "is_object b1" and "is_object b2" and "key \<in> set (resultKeys b1 b2)"
  shows "size (valueOrZero b1 key) + size (valueOrZero b2 key) < size b1 + size b2"
proof -
  from assms(3) have "key \<in> set (Object_keys b1) \<or> key \<in> set (Object_keys b2)"
    by (auto simp: set_resultKeys)
  then show ?thesis
    using size_valueOrZero [where b = b1 and key = key]
          size_valueOrZero [where b = b2 and key = key] assms(1,2)
    by auto
qed

text \<open>
  \<open>addSizeBreakdowns\<close>. Two numbers are added (sizes are byte counts, which doubles hold
  exactly). Two objects are merged key by key. Any other pair is answered with the
  first truthy operand, or 0.
\<close>

function addSizeBreakdowns :: "breakdown \<Rightarrow> breakdown \<Rightarrow> breakdown" where
  "addSizeBreakdowns breakdown1 breakdown2 =
     (if is_number breakdown1 \<and> is_number breakdown2
      then Size (number_of breakdown1 + number_of breakdown2)
      else if is_object breakdown1 \<and> is_object breakdown2
      then Breakdown (map (\<lambda>key. (key, addSizeBreakdowns (valueOrZero breakdown1 key)
                                                           (valueOrZero breakdown2 key)))
                          (resultKeys breakdown1 breakdown2))
      else if truthy_breakdown breakdown1 then breakdown1
      else if truthy_breakdown breakdown2 then breakdown2
      else Size 0)"
  by pat_completeness auto
termination
  by (relation "measure (\<lambda>(a, b). size a + size b)")
     (auto intro!: size_merge_operands simp del: valueOrZero.simps breakdown.size)

declare addSizeBreakdowns.simps [simp del]

text \<open>
  \<open>calculateSizeWithShape\<close>: \<open>sizeOfElements\<close> is the loop over the items of an array,
  with the running total and the flag \<open>isFirstElement\<close>; \<open>sizeOfKeys\<close> is the loop over
  the keys of the shape, which reads \<open>data[key]\<close> before it looks at the rule. Under the
  key \<open>__proto__\<close> the assignment \<open>result[key] = ...\<close> defines no property (see
  \<open>assign\<close>).
\<close>

function calculateSizeWithShape :: "runtime \<Rightarrow> jsval \<Rightarrow> shape \<Rightarrow> js_error + breakdown"
  and sizeOfElements ::
    "runtime \<Rightarrow> jsval list \<Rightarrow> shape \<Rightarrow> breakdown \<Rightarrow> bool \<Rightarrow> js_error + breakdown"
  and sizeOfKeys ::
    "runtime \<Rightarrow> jsval \<Rightarrow> shape \<Rightarrow> (jsstring \<times> breakdown) list
       \<Rightarrow> js_error + (jsstring \<times> breakdown) list"
where
  "calculateSizeWithShape rt data shape =
     (case data of
        JArr items \<Rightarrow> sizeOfElements rt items shape (Breakdown []) True
      | _ \<Rightarrow>
          (case sizeOfKeys rt data shape [] of
             Inl e \<Rightarrow> Inl e
           | Inr result \<Rightarrow> Inr (Breakdown result)))"
| "sizeOfElements rt [] shape totalSizeBreakdown isFirstElement = Inr totalSizeBreakdown"
| "sizeOfElements rt (item # items) shape totalSizeBreakdown isFirstElement =
     (case calculateSizeWithShape rt item shape of
        Inl e \<Rightarrow> Inl e
      | Inr itemSizeBreakdown \<Rightarrow>
          sizeOfElements rt items shape
            (if isFirstElement then itemSizeBreakdown
             else addSizeBreakdowns totalSizeBreakdown itemSizeBreakdown)
            False)"
| "sizeOfKeys rt data [] result = Inr result"
| "sizeOfKeys rt data ((key, rule) # rest) result =
     (case getProp rt data key of
        Inl e \<Rightarrow> Inl e
      | Inr v \<Rightarrow>
          if v = JUndefined then sizeOfKeys rt data rest result
          else (case rule of
                  Include \<Rightarrow>
                    sizeOfKeys rt data rest (assign result key (Size (calculateValueSize rt v)))
                | Nested sub \<Rightarrow>
                    (case calculateSizeWithShape rt v sub of
                       Inl e \<Rightarrow> Inl e
                     | Inr b \<Rightarrow> sizeOfKeys rt data rest (assign result key b))
                | Ignored \<Rightarrow> sizeOfKeys rt data rest result))"
  by pat_completeness auto
termination
  by (relation "inv_image (less_than <*lex*> less_than <*lex*> less_than)
     (\<lambda>x. case x of
        Inl (rt, d, s) \<Rightarrow> (size_list (size_prod (\<lambda>_. 0) size) s, size d, 1::nat)
      | Inr (Inl (rt, ds, s, t, f)) \<Rightarrow> (size_list (size_prod (\<lambda>_. 0) size) s, size_list size ds, 0)
      | Inr (Inr (rt, d, s, r)) \<Rightarrow> (size_list (size_prod (\<lambda>_. 0) size) s, size d, 0))")
    auto

text \<open>
  \<open>fits rule b\<close>: the breakdown \<open>b\<close> has the topology of \<open>rule\<close>: a number under
  \<open>Include\<close>, under a nested shape an object with distinct keys, each a key of the
  shape that names no member of \<open>Object.prototype\<close> and whose value fits the key's
  rule. \<open>as_mapping\<close> reads a breakdown as a finite map, forgetting the order of the keys.
  A shape is well formed when, at every level, its keys are distinct, as the keys of a
  parsed JSON object are, and name no member of \<open>Object.prototype\<close>.
\<close>

fun fits :: "rule \<Rightarrow> breakdown \<Rightarrow> bool" where
  "fits Include (Size n) = True"
| "fits (Nested sub) (Breakdown entries) =
     (distinct (map fst entries) \<and>
      (\<forall>e \<in> set entries.
         fst e \<notin> set object_prototype_names \<and>
         (case map_of sub (fst e) of None \<Rightarrow> False | Some r \<Rightarrow> fits r (snd e))))"
| "fits r b = False"

definition conforms :: "shape \<Rightarrow> breakdown \<Rightarrow> bool" where
  "conforms shape b = fits (Nested shape) b"



fun wf_rule :: "rule \<Rightarrow> bool" where
  "wf_rule (Nested sub) =
     (distinct (map fst sub) \<and>
      (\<forall>e \<in> set sub. fst e \<notin> set object_prototype_names \<and> wf_rule (snd e)))"
| "wf_rule r = True"

definition wf_shape :: "shape \<Rightarrow> bool" where
  "wf_shape shape = wf_rule (Nested shape)"

text \<open>
  A document is plain when it holds no \<open>undefined\<close>, no built-in object and no
  non-finite number, and every object key is written between the quotation marks as it
  stands (no quotation mark, backslash, control character or lone surrogate in it).
\<close>

definition plain_key :: "jsstring \<Rightarrow> bool" where
  "plain_key key = (quote_units key = key)"

fun plain_document :: "jsval \<Rightarrow> bool" where
  "plain_document JUndefined = False"
| "plain_document (JBuiltin b) = False"
| "plain_document JNull = True"
| "plain_document (JBool b) = True"
| "plain_document (JNum n) = (case n of Finite t \<Rightarrow> True | _ \<Rightarrow> False)"
| "plain_document (JStr s) = True"
| "plain_document (JArr xs) = list_all plain_document xs"
| "plain_document (JObj obj) =
     list_all (\<lambda>entry. plain_key (fst entry) \<and> plain_document (snd entry)) obj"

section \<open>Example inputs\<close>

text \<open>
  The runtime of the examples. Of what the \<open>runtime\<close> record describes it holds the
  \<open>name\<close> of the functions of \<open>Object.prototype\<close> and nothing else; the examples read
  properties of plain objects, and that name, only.
\<close>

definition example_runtime :: runtime where
  "example_runtime =
     \<lparr>inherited =
        (\<lambda>v key. case v of
           JBuiltin (ObjectFunction name) \<Rightarrow>
             if key = ascii ''name''
             then Inr (JStr (if name = ascii ''constructor'' then ascii ''Object'' else name))
             else Inr JUndefined
         | _ \<Rightarrow> Inr JUndefined),
      callable = (\<lambda>n. False), builtin_json = (\<lambda>n gap indent. None),
      builtin_size = (\<lambda>n. 0)\<rparr>"

definition big_file_world :: world where
  "big_file_world =
     \<lparr>resolve = (\<lambda>s. ''/data/'' @ s), stat = (\<lambda>p. Some 60000000),
      readFile = (\<lambda>p. Some (ascii ''not json'')), JSON_parse = (\<lambda>c. None),
      URL_protocol = (\<lambda>s. None), fetch = (\<lambda>s. Aborted)\<rparr>"

definition content_length_response :: Response where
  "content_length_response =
     \<lparr>status = 200, statusText = ''OK'',
      headers = (\<lambda>h. if h = ''content-length'' then Some ''60000000'' else None),
      body = Some (ascii ''[]'')\<rparr>"

definition chunked_body :: jsstring where
  "chunked_body = replicate 52428801 0x20"

definition chunked_response :: Response where
  "chunked_response =
     \<lparr>status = 200, statusText = ''OK'', headers = (\<lambda>h. None),
      body = Some chunked_body\<rparr>"

definition remote_world :: "Response \<Rightarrow> world" where
  "remote_world response =
     \<lparr>resolve = (\<lambda>s. s), stat = (\<lambda>p. None), readFile = (\<lambda>p. None),
      JSON_parse = (\<lambda>c. Some JNull), URL_protocol = (\<lambda>s. Some ''https:''),
      fetch = (\<lambda>s. Responded response)\<rparr>"

definition accented_body :: jsstring where
  "accented_body = replicate 200 0xE9"

definition unauthorized_response :: Response where
  "unauthorized_response =
     \<lparr>status = 401, statusText = ''Unauthorized'', headers = (\<lambda>h. None),
      body = Some accented_body\<rparr>"

definition not_found_response :: Response where
  "not_found_response =
     \<lparr>status = 404, statusText = ''Not Found'', headers = (\<lambda>h. None), body = None\<rparr>"

definition mixed_a :: breakdown where
  "mixed_a = Breakdown [(ascii ''k'', Size 5)]"

definition mixed_b :: breakdown where
  "mixed_b = Breakdown [(ascii ''k'', Breakdown [(ascii ''x'', Size 1)])]"

definition toString_shape :: shape where
  "toString_shape = [(ascii ''toString'', Include)]"

definition toString_item :: jsval where
  "toString_item = JObj [(ascii ''toString'', JBool False)]"

definition toString_breakdown :: breakdown where
  "toString_breakdown = Breakdown [(ascii ''toString'', Size 5)]"





definition null_document_world :: world where
  "null_document_world =
     \<lparr>resolve = (\<lambda>s. s), stat = (\<lambda>p. Some 10),
      readFile = (\<lambda>p. Some (ascii ''{\"a\":null}'')),
      JSON_parse = (\<lambda>c. if c = ascii ''{\"a\":null}'' then Some (JObj [(ascii ''a'', JNull)]) else None),
      URL_protocol = (\<lambda>s. None), fetch = (\<lambda>s. Aborted)\<rparr>"

definition person_document :: jsval where
  "person_document =
     JObj [(ascii ''name'', JStr (ascii ''John'')), (ascii ''age'', JNum (Finite ''30'')),
           (ascii ''city'', JStr (ascii ''New York''))]"

definition users_document :: jsval where
  "users_document =
     JObj [(ascii ''users'',
            JArr [JObj [(ascii ''id'', JNum (Finite ''1'')), (ascii ''name'', JStr (ascii ''Al''))],
                  JObj [(ascii ''id'', JNum (Finite ''2'')), (ascii ''name'', JStr (ascii ''Bo''))]])]"

chapter \<open>Properties\<close>

section \<open>Properties of the projector\<close>

lemmas example_keys =
  ascii_def object_prototype_member_def object_prototype_functions_def
  object_prototype_names_def assign_def example_runtime_def

subsection \<open>Arrays are projected element by element\<close>

lemma extractItems_Inr:
  "(extractItems rt items shape = Inr rs) =
     (length rs = length items \<and>
      (\<forall>i<length items. extractWithShape rt (items ! i) shape = Inr (rs ! i)))"
proof (induction items arbitrary: rs)
  case Nil
  then show ?case by auto
next
  case (Cons item items)
  show ?case
  proof (cases rs)
    case Nil
    then show ?thesis by (auto split: sum.splits)
  next
    case (Cons r rs')
    then show ?thesis
      using Cons.IH [of rs']
      by (auto split: sum.splits nat.splits simp: nth_Cons simp del: extractWithShape.simps)
  qed
qed

lemma extractItems_total:
  "(\<forall>i<length items. \<exists>r. extractWithShape rt (items ! i) shape = Inr r) \<Longrightarrow>
   \<exists>rs. extractItems rt items shape = Inr rs"
proof (induction items)
  case Nil
  then show ?case by simp
next
  case (Cons item items)
  from Cons.prems have "\<exists>r. extractWithShape rt item shape = Inr r"
    by (metis length_Cons nth_Cons_0 zero_less_Suc)
  moreover from Cons.prems
  have "\<forall>i<length items. \<exists>r. extractWithShape rt (items ! i) shape = Inr r"
    by (metis length_Cons nth_Cons_Suc Suc_less_eq)
  with Cons.IH have "\<exists>rs. extractItems rt items shape = Inr rs" by blast
  ultimately show ?case by (auto simp del: extractWithShape.simps)
qed

text \<open>
  C2, as stated, fails: projecting the array \<open>[null]\<close> with the shape \<open>{"a": true}\<close> reads
  \<open>null["a"]\<close> and throws a TypeError, so no array is returned.
\<close>

theorem project_array_counterexample:
  "extractWithShape example_runtime (JArr [JNull]) [(ascii ''a'', Include)] = Inl TypeError"
  by simp

text \<open>
  C2 (amended): for every array \<open>v\<close> and shape \<open>s\<close> such that the projection of each
  element of \<open>v\<close> under \<open>s\<close> returns, \<open>extractWithShape v s\<close> returns an array of the same
  length whose \<open>i\<close>-th element is the projection of \<open>v[i]\<close> under \<open>s\<close>, for every index
  \<open>i\<close>.
\<close>

theorem project_array_elementwise:
  assumes "\<forall>i<length items. \<exists>r. extractWithShape rt (items ! i) shape = Inr r"
  shows "\<exists>rs. extractWithShape rt (JArr items) shape = Inr (JArr rs) \<and>
           length rs = length items \<and>
           (\<forall>i<length items. extractWithShape rt (items ! i) shape = Inr (rs ! i))"
proof -
  from extractItems_total [OF assms] obtain rs where rs: "extractItems rt items shape = Inr rs"
    by blast
  then have "extractWithShape rt (JArr items) shape = Inr (JArr rs)" by simp
  with rs show ?thesis unfolding extractItems_Inr by blast
qed

theorem project_array_elementwise_witness:
  "(\<exists>r. extractWithShape example_runtime (JObj [(ascii ''a'', JNull), (ascii ''b'', JBool True)])
          [(ascii ''a'', Include)] = Inr r) \<and>
   (\<exists>r. extractWithShape example_runtime (JObj []) [(ascii ''a'', Include)] = Inr r) \<and>
   (\<exists>rs. extractWithShape example_runtime
          (JArr [JObj [(ascii ''a'', JNull), (ascii ''b'', JBool True)], JObj []])
          [(ascii ''a'', Include)] = Inr (JArr rs) \<and>
         length rs = 2 \<and>
         extractWithShape example_runtime (JObj [(ascii ''a'', JNull), (ascii ''b'', JBool True)])
          [(ascii ''a'', Include)] = Inr (rs ! 0) \<and>
         extractWithShape example_runtime (JObj []) [(ascii ''a'', Include)] = Inr (rs ! 1))"
proof -
  let ?items = "[JObj [(ascii ''a'', JNull), (ascii ''b'', JBool True)], JObj []]"
  let ?shape = "[(ascii ''a'', Include)]"
  have h: "\<forall>i<length ?items. \<exists>r. extractWithShape example_runtime (?items ! i) ?shape = Inr r"
    by (simp add: less_Suc_eq nth_Cons')
  from project_array_elementwise [OF h] obtain rs where
    rs: "extractWithShape example_runtime (JArr ?items) ?shape = Inr (JArr rs)"
      "length rs = length ?items"
      "\<forall>i<length ?items. extractWithShape example_runtime (?items ! i) ?shape = Inr (rs ! i)"
    by blast
  have "extractWithShape example_runtime (?items ! 0) ?shape = Inr (rs ! 0)"
    using rs(3) [rule_format, of 0] by (simp del: extractWithShape.simps)
  moreover have "extractWithShape example_runtime (?items ! 1) ?shape = Inr (rs ! 1)"
    using rs(3) [rule_format, of 1] by (simp del: extractWithShape.simps)
  moreover have "length rs = 2"
    using rs(2) by simp
  moreover have "\<exists>r. extractWithShape example_runtime (?items ! 0) ?shape = Inr r"
    and "\<exists>r. extractWithShape example_runtime (?items ! 1) ?shape = Inr r"
    by simp_all
  ultimately show ?thesis
    using rs(1) by (simp del: extractWithShape.simps)
qed

subsection \<open>The empty shape\<close>

text \<open>
  C9, as stated, fails for arrays: the empty array is projected to the empty array, not
  to the empty object.
\<close>

theorem project_empty_shape_counterexample:
  "extractWithShape example_runtime (JArr []) [] \<noteq> Inr (JObj [])"
  by simp

lemma project_empty_shape_returns: "\<exists>r. extractWithShape rt v [] = Inr r"
proof (induction v)
  case (JArr xs)
  then have "\<forall>i<length xs. \<exists>r. extractWithShape rt (xs ! i) [] = Inr r"
    by (metis nth_mem)
  then obtain rs where "extractItems rt xs [] = Inr rs"
    using extractItems_total by blast
  then show ?case by simp
qed simp_all

text \<open>
  C9 (amended): projecting with the empty shape never throws; for every value \<open>v\<close> that
  is not an array (in particular every object) it yields the empty object, and for an
  array it yields the array, of the same length, of the projections of the elements.
\<close>

theorem project_empty_shape:
  "(\<not> isArray v \<longrightarrow> extractWithShape rt v [] = Inr (JObj [])) \<and>
   (\<forall>items. v = JArr items \<longrightarrow>
      (\<exists>rs. extractWithShape rt v [] = Inr (JArr rs) \<and> length rs = length items \<and>
            (\<forall>i<length items. extractWithShape rt (items ! i) [] = Inr (rs ! i))))"
proof (intro conjI allI impI)
  assume "\<not> isArray v"
  then show "extractWithShape rt v [] = Inr (JObj [])" by (cases v) simp_all
next
  fix items
  assume v: "v = JArr items"
  have "\<forall>i<length items. \<exists>r. extractWithShape rt (items ! i) [] = Inr r"
    using project_empty_shape_returns by blast
  then obtain rs where rs: "extractItems rt items [] = Inr rs"
    using extractItems_total by blast
  then have "extractWithShape rt (JArr items) [] = Inr (JArr rs)" by simp
  with rs v show "\<exists>rs. extractWithShape rt v [] = Inr (JArr rs) \<and> length rs = length items \<and>
            (\<forall>i<length items. extractWithShape rt (items ! i) [] = Inr (rs ! i))"
    unfolding extractItems_Inr by blast
qed

theorem project_empty_shape_witness:
  "\<not> isArray (JObj [(ascii ''a'', JNum (Finite ''1''))]) \<and>
   extractWithShape example_runtime (JObj [(ascii ''a'', JNum (Finite ''1''))]) [] = Inr (JObj []) \<and>
   extractWithShape example_runtime (JArr [JNull, JArr []]) [] = Inr (JArr [JObj [], JArr []])"
proof -
  have "\<not> isArray (JObj [(ascii ''a'', JNum (Finite ''1''))])" by simp
  with project_empty_shape [of "JObj [(ascii ''a'', JNum (Finite ''1''))]" example_runtime]
  have "extractWithShape example_runtime (JObj [(ascii ''a'', JNum (Finite ''1''))]) []
          = Inr (JObj [])"
    by blast
  moreover from project_empty_shape [of "JArr [JNull, JArr []]" example_runtime]
  obtain rs where "extractWithShape example_runtime (JArr [JNull, JArr []]) [] = Inr (JArr rs)"
    by blast
  then have "extractWithShape example_runtime (JArr [JNull, JArr []]) []
               = Inr (JArr [JObj [], JArr []])"
    by simp
  ultimately show ?thesis by simp
qed

subsection \<open>Keys whose value is absent\<close>

lemma keys_setProp: "fst ` set (setProp acc k v) = insert k (fst ` set acc)"
  by (induction acc k v rule: setProp.induct) auto


lemma distinct_setProp: "distinct (map fst acc) \<Longrightarrow> distinct (map fst (setProp acc k v))"
  by (induction acc k v rule: setProp.induct) (auto simp: keys_setProp)

lemma keys_assign: "fst ` set (assign acc k v) \<subseteq> insert k (fst ` set acc)"
  by (auto simp: assign_def keys_setProp)



lemma extractKeys_step:
  assumes "extractKeys rt data ((key, rule) # shape) acc = Inr entries"
  obtains "extractKeys rt data shape acc = Inr entries"
  | v where "extractKeys rt data shape (assign acc key v) = Inr entries"
  using assms
  by (cases rule) (auto split: sum.splits if_splits simp del: extractWithShape.simps)

lemma extractKeys_keys:
  "extractKeys rt data shape acc = Inr entries \<Longrightarrow>
   fst ` set entries \<subseteq> fst ` set acc \<union> fst ` set shape"
proof (induction shape arbitrary: acc)
  case Nil
  then show ?case by simp
next
  case (Cons e shape)
  obtain key rule where e: "e = (key, rule)" by (cases e)
  from Cons.prems [unfolded e] show ?case
  proof (cases rule: extractKeys_step)
    case 1
    from Cons.IH [OF this] show ?thesis using e by auto
  next
    case (2 v)
    from Cons.IH [OF this] keys_assign [of acc key v] show ?thesis using e by auto
  qed
qed

lemma extractKeys_drop_key:
  assumes "getProp rt data k = Inr JUndefined"
    and "\<forall>r. (k, r) \<in> set shape \<longrightarrow> r \<noteq> Include"
  shows "extractKeys rt data shape acc = extractKeys rt data (filter (\<lambda>e. fst e \<noteq> k) shape) acc"
  using assms(2)
proof (induction shape arbitrary: acc)
  case Nil
  then show ?case by simp
next
  case (Cons e shape)
  obtain key rule where e: "e = (key, rule)" by (cases e)
  from Cons.prems have rest: "\<forall>r. (k, r) \<in> set shape \<longrightarrow> r \<noteq> Include" by auto
  note IH = Cons.IH [OF rest]
  show ?case
  proof (cases "key = k")
    case True
    with Cons.prems e have "rule \<noteq> Include" by auto
    with True e assms(1) IH show ?thesis
      by (cases rule) (simp_all del: extractWithShape.simps)
  next
    case False
    with e IH show ?thesis
      by (cases rule) (simp_all del: extractWithShape.simps split: sum.splits)
  qed
qed

lemma distinct_keys_rule:
  "distinct (map fst shape) \<Longrightarrow> (k, r) \<in> set shape \<Longrightarrow> (k, r') \<in> set shape \<Longrightarrow> r = r'"
  by (meson eq_key_imp_eq_value)

lemma nonarray_extract:
  "\<not> isArray data \<Longrightarrow>
   extractWithShape rt data shape =
     (case extractKeys rt data shape [] of Inl e \<Rightarrow> Inl e | Inr result \<Rightarrow> Inr (JObj result))"
  by (cases data) simp_all

text \<open>
  \<open>data[k]\<close> is read through the prototype: on a plain object that has no own property
  \<open>k\<close> it is \<open>undefined\<close> exactly when \<open>k\<close> names no member of \<open>Object.prototype\<close>. So
  the document \<open>{}\<close> projected with the shape \<open>{"constructor": {"name": true}}\<close> is
  \<open>{"constructor": {"name": "Object"}}\<close>: the key is not dropped.
\<close>

lemma absent_key_undefined:
  "map_of entries k = None \<Longrightarrow>
   (getProp rt (JObj entries) k = Inr JUndefined) = (k \<notin> set object_prototype_names)"
  by (auto simp: object_prototype_member_def object_prototype_names_def)

lemma constructor_name_example:
  "extractWithShape example_runtime (JObj [])
     [(ascii ''constructor'', Nested [(ascii ''name'', Include)])]
     = Inr (JObj [(ascii ''constructor'', JObj [(ascii ''name'', JStr (ascii ''Object''))])])"
  by (simp add: example_keys)

text \<open>
  C6 (amended): for every value \<open>data\<close> that reaches the key loop (not an array, not
  \<open>null\<close>) and every shape key \<open>k\<close> mapped to a nested shape, if \<open>data[k]\<close> is
  \<open>undefined\<close> (\<open>k\<close> is no property of \<open>data\<close>, neither its own nor one that it inherits
  from a prototype), the key is a no-op: the projection is exactly the projection under
  the shape without \<open>k\<close> (so that key raises no error), and \<open>k\<close> is not a key of the
  output. Nothing is stated for a \<open>null\<close> value, nor for a key that names an inherited
  member.
\<close>

theorem nested_key_absent_dropped:
  assumes "\<not> isArray data" and "getProp rt data k = Inr JUndefined"
    and "distinct (map fst shape)" and "(k, Nested sub) \<in> set shape"
  shows "extractWithShape rt data shape
           = extractWithShape rt data (filter (\<lambda>e. fst e \<noteq> k) shape) \<and>
         (\<forall>entries. extractWithShape rt data shape = Inr (JObj entries)
            \<longrightarrow> k \<notin> fst ` set entries)"
proof -
  have no_incl: "\<forall>r. (k, r) \<in> set shape \<longrightarrow> r \<noteq> Include"
    using distinct_keys_rule [OF assms(3) assms(4)] by auto
  have eq: "extractKeys rt data shape []
              = extractKeys rt data (filter (\<lambda>e. fst e \<noteq> k) shape) []"
    by (rule extractKeys_drop_key [OF assms(2) no_incl])
  have 1: "extractWithShape rt data shape
             = extractWithShape rt data (filter (\<lambda>e. fst e \<noteq> k) shape)"
    unfolding nonarray_extract [OF assms(1)] eq ..
  have 2: "k \<notin> fst ` set entries"
    if "extractWithShape rt data shape = Inr (JObj entries)" for entries
  proof -
    from that have "extractKeys rt data (filter (\<lambda>e. fst e \<noteq> k) shape) [] = Inr entries"
      unfolding nonarray_extract [OF assms(1)] eq by (auto split: sum.splits)
    from extractKeys_keys [OF this] show ?thesis by auto
  qed
  from 1 2 show ?thesis by blast
qed

text \<open>
  C6, as stated, fails for \<open>null\<close>: with the document \<open>{"a": null}\<close> and the shape
  \<open>{"a": {"b": true}}\<close> the guard \<open>data[key] !== undefined\<close> lets \<open>null\<close> through, the
  recursive call reads \<open>null["b"]\<close> and a TypeError is thrown.
\<close>

theorem nested_key_null_counterexample:
  "extractWithShape example_runtime (JObj [(ascii ''a'', JNull)])
     [(ascii ''a'', Nested [(ascii ''b'', Include)])]
     = Inl TypeError"
  by simp

text \<open>
  Through the tool, that projection is the error \<open>Failed to apply shape filter\<close>.
\<close>

lemma json_filter_null_document:
  "json_filter rt null_document_world ''doc.json'' [(ascii ''a'', Nested [(ascii ''b'', Include)])]
     = \<lparr>content = Text (Some (ascii ''Error: Failed to apply shape filter'')), isError = True\<rparr>"
  by (simp add: json_filter_def filePath_accepted_def processJsonFilter_def
        JsonIngestionContext_ingest_def
        findStrategy_def strategies_def LocalFileStrategy_def LocalFileStrategy_canHandle_def
        LocalFileStrategy_ingest_def startsWith_def null_document_world_def
        validateJsonContent_def maxFileSize_def Let_def)

theorem nested_key_absent_dropped_witness:
  "\<not> isArray (JObj [(ascii ''b'', JBool True)]) \<and>
   getProp example_runtime (JObj [(ascii ''b'', JBool True)]) (ascii ''a'') = Inr JUndefined \<and>
   distinct (map fst [(ascii ''a'', Nested [(ascii ''c'', Include)]), (ascii ''b'', Include)]) \<and>
   (ascii ''a'', Nested [(ascii ''c'', Include)])
      \<in> set [(ascii ''a'', Nested [(ascii ''c'', Include)]), (ascii ''b'', Include)] \<and>
   extractWithShape example_runtime (JObj [(ascii ''b'', JBool True)])
      [(ascii ''a'', Nested [(ascii ''c'', Include)]), (ascii ''b'', Include)]
     = Inr (JObj [(ascii ''b'', JBool True)]) \<and>
   ascii ''a'' \<notin> fst ` set [(ascii ''b'', JBool True)]"
proof -
  let ?data = "JObj [(ascii ''b'', JBool True)]"
  let ?shape = "[(ascii ''a'', Nested [(ascii ''c'', Include)]), (ascii ''b'', Include)]"
  have h1: "\<not> isArray ?data" by simp
  have h2: "getProp example_runtime ?data (ascii ''a'') = Inr JUndefined"
    by (simp add: example_keys)
  have h3: "distinct (map fst ?shape)" by (simp add: ascii_def)
  have h4: "(ascii ''a'', Nested [(ascii ''c'', Include)]) \<in> set ?shape" by simp
  have r: "extractWithShape example_runtime ?data ?shape = Inr (JObj [(ascii ''b'', JBool True)])"
    by (simp add: example_keys)
  from nested_key_absent_dropped [OF h1 h2 h3 h4] r
  have "ascii ''a'' \<notin> fst ` set [(ascii ''b'', JBool True)]" by blast
  with h1 h2 h3 h4 r show ?thesis by blast
qed








text \<open>
  On a plain object that has no own property \<open>k\<close>, the read \<open>data[k]\<close> yields
  \<open>undefined\<close>, or a function of \<open>Object.prototype\<close>, or \<open>k\<close> is \<open>__proto__\<close>.
\<close>

lemma absent_key_read:
  "map_of entries k = None \<Longrightarrow>
   \<exists>v. getProp rt (JObj entries) k = Inr v \<and>
       (v = JUndefined \<or> is_function rt v \<or> k = ascii ''__proto__'')"
  by (simp add: object_prototype_member_def)



text \<open>
  The same for a key that names a function of \<open>Object.prototype\<close>: the document \<open>{}\<close>
  projected with the shape \<open>{"toString": true}\<close> holds the inherited function under
  \<open>toString\<close> and is printed as \<open>{}\<close>.
\<close>

lemma include_key_inherited_example:
  "extractWithShape rt (JObj []) [(ascii ''toString'', Include)]
     = Inr (JObj [(ascii ''toString'', JBuiltin (ObjectFunction (ascii ''toString'')))])"
  "JSON_stringify rt (ascii ''  '')
     (JObj [(ascii ''toString'', JBuiltin (ObjectFunction (ascii ''toString'')))])
     = Some (ascii ''{}'')"
  by (simp_all add: example_keys JSON_stringify_def wrap_def)

section \<open>Properties of ingestion\<close>

subsection \<open>Size caps\<close>

text \<open>
  C4: for every local file whose stat-reported size exceeds the 50 MB cap, local
  ingestion returns an error of type \<open>content_too_large\<close> whose details carry the
  actual and the maximum size (the message carries both rounded to megabytes); the only
  operation performed is the \<open>stat\<close>, so the file is never read, and the error is not
  \<open>invalid_json\<close>.
\<close>

theorem local_oversized_file:
  assumes "stat w (resolve w source) = Some n" and "n > maxFileSize"
  shows "\<exists>e. LocalFileStrategy_ingest w source = (Failure e, [Stat (resolve w source)]) \<and>
           type e = content_too_large \<and> type e \<noteq> invalid_json \<and>
           details e = Fields [(''fileSize'', DNumber n), (''maxSize'', DNumber maxFileSize),
                               (''filePath'', DString (resolve w source))] \<and>
           message e = ''File too large ('' @ decimal (round_mb n)
                    @ ''MB). This tool is optimized for JSON files under ''
                    @ decimal (round_mb maxFileSize) @ ''MB.'' \<and>
           (\<forall>p. ReadFile p \<notin> set (snd (LocalFileStrategy_ingest w source)))"
  using assms by (simp add: LocalFileStrategy_ingest_def Let_def)

theorem local_oversized_file_witness:
  "stat big_file_world (resolve big_file_world ''big.json'') = Some 60000000 \<and>
   60000000 > maxFileSize \<and>
   (\<exists>e. LocalFileStrategy_ingest big_file_world ''big.json'' = (Failure e, [Stat ''/data/big.json'']) \<and>
        type e = content_too_large \<and>
        details e = Fields [(''fileSize'', DNumber 60000000), (''maxSize'', DNumber 52428800),
                            (''filePath'', DString ''/data/big.json'')])"
proof -
  have h1: "stat big_file_world (resolve big_file_world ''big.json'') = Some 60000000"
    by (simp add: big_file_world_def)
  have h2: "60000000 > maxFileSize" by (simp add: maxFileSize_def)
  from local_oversized_file [OF h1 h2] obtain e where
    "LocalFileStrategy_ingest big_file_world ''big.json''
       = (Failure e, [Stat (resolve big_file_world ''big.json'')])"
    "type e = content_too_large"
    "details e = Fields [(''fileSize'', DNumber 60000000), (''maxSize'', DNumber maxFileSize),
                               (''filePath'', DString (resolve big_file_world ''big.json''))]"
    by blast
  then have "LocalFileStrategy_ingest big_file_world ''big.json'' = (Failure e, [Stat ''/data/big.json'']) \<and>
        type e = content_too_large \<and>
        details e = Fields [(''fileSize'', DNumber 60000000), (''maxSize'', DNumber 52428800),
                            (''filePath'', DString ''/data/big.json'')]"
    by (simp add: big_file_world_def maxFileSize_def)
  with h1 h2 show ?thesis by blast
qed

lemma parseInt_empty: "parseInt [] = None"
  by (simp add: parseInt_def)

lemma utf8_length_replicate:
  "\<not> is_high_surrogate c \<Longrightarrow> utf8_length (replicate n c) = n * unit_bytes c"
proof (induction n)
  case 0
  then show ?case by simp
next
  case (Suc n)
  then show ?case by (cases n) simp_all
qed

text \<open>
  C5: for every 2xx response, (1) if the \<open>Content-Length\<close> header parses to a value
  above the 50 MB cap, remote ingestion returns \<open>content_too_large\<close> with that value
  and performs the fetch only (the body is not read); (2) if the header check does not
  fire (in particular when the header is missing) and the body that was read measures
  more than the cap in UTF-8 bytes, it returns \<open>content_too_large\<close> with the measured
  size.
\<close>

theorem remote_oversized:
  assumes "URL_protocol w source = Some p" and "p = ''http:'' \<or> p = ''https:''"
    and "fetch w source = Responded response" and "ok response"
  shows "(\<forall>cl n. headers response ''content-length'' = Some cl \<and> parseInt cl = Some n \<and>
              n > int maxResponseSize \<longrightarrow>
            (\<exists>e. HttpJsonStrategy_ingest w source = (Failure e, [Fetch source]) \<and>
                 type e = content_too_large \<and>
                 details e = Fields [(''contentLength'', DNumber (nat n)),
                                     (''maxSize'', DNumber maxResponseSize),
                                     (''url'', DString source)])) \<and>
         (\<forall>content. contentLengthExceeds response = None \<and> body response = Some content \<and>
              utf8_length content > maxResponseSize \<longrightarrow>
            (\<exists>e. HttpJsonStrategy_ingest w source = (Failure e, [Fetch source, ReadBody]) \<and>
                 type e = content_too_large \<and>
                 details e = Fields [(''actualSize'', DNumber (utf8_length content)),
                                     (''maxSize'', DNumber maxResponseSize),
                                     (''url'', DString source)])) \<and>
         (headers response ''content-length'' = None \<longrightarrow> contentLengthExceeds response = None)"
proof (intro conjI allI impI)
  fix cl n
  assume a: "headers response ''content-length'' = Some cl \<and> parseInt cl = Some n \<and>
              n > int maxResponseSize"
  then have "cl \<noteq> []" using parseInt_empty by auto
  with a have "contentLengthExceeds response = Some (nat n)"
    by (simp add: contentLengthExceeds_def truthy_def)
  with assms show "\<exists>e. HttpJsonStrategy_ingest w source = (Failure e, [Fetch source]) \<and>
                 type e = content_too_large \<and>
                 details e = Fields [(''contentLength'', DNumber (nat n)),
                                     (''maxSize'', DNumber maxResponseSize),
                                     (''url'', DString source)]"
    by (auto simp: HttpJsonStrategy_ingest_def okResponse_def)
next
  fix content
  assume "contentLengthExceeds response = None \<and> body response = Some content \<and>
              utf8_length content > maxResponseSize"
  with assms show "\<exists>e. HttpJsonStrategy_ingest w source = (Failure e, [Fetch source, ReadBody]) \<and>
                 type e = content_too_large \<and>
                 details e = Fields [(''actualSize'', DNumber (utf8_length content)),
                                     (''maxSize'', DNumber maxResponseSize),
                                     (''url'', DString source)]"
    by (auto simp: HttpJsonStrategy_ingest_def okResponse_def Let_def)
next
  assume "headers response ''content-length'' = None"
  then show "contentLengthExceeds response = None"
    by (simp add: contentLengthExceeds_def truthy_def)
qed

theorem remote_oversized_witness:
  "ok content_length_response \<and>
   headers content_length_response ''content-length'' = Some ''60000000'' \<and>
   parseInt ''60000000'' = Some 60000000 \<and> 60000000 > int maxResponseSize \<and>
   (\<exists>e. HttpJsonStrategy_ingest (remote_world content_length_response) ''https://example.com/a.json''
          = (Failure e, [Fetch ''https://example.com/a.json'']) \<and>
        type e = content_too_large) \<and>
   ok chunked_response \<and> contentLengthExceeds chunked_response = None \<and>
   utf8_length chunked_body > maxResponseSize \<and>
   (\<exists>e. HttpJsonStrategy_ingest (remote_world chunked_response) ''https://example.com/a.json''
          = (Failure e, [Fetch ''https://example.com/a.json'', ReadBody]) \<and>
        type e = content_too_large \<and>
        detail_of e ''actualSize'' = Some (DNumber 52428801))"
proof -
  let ?src = "''https://example.com/a.json''"
  have p: "''https:'' = ''http:'' \<or> ''https:'' = ''https:''" by simp
  have a1: "ok content_length_response" by (simp add: ok_def content_length_response_def)
  have a2: "headers content_length_response ''content-length'' = Some ''60000000''"
    by (simp add: content_length_response_def)
  have a3: "parseInt ''60000000'' = Some 60000000"
    by (simp add: parseInt_def is_whitespace_char_def is_digit_char_def digits_value_def)
  have a4: "60000000 > int maxResponseSize" by (simp add: maxResponseSize_def)
  have u1: "URL_protocol (remote_world content_length_response) ?src = Some ''https:''"
    and f1: "fetch (remote_world content_length_response) ?src = Responded content_length_response"
    by (simp_all add: remote_world_def)
  from remote_oversized [OF u1 p f1 a1] a2 a3 a4
  have "\<exists>e. HttpJsonStrategy_ingest (remote_world content_length_response) ?src
          = (Failure e, [Fetch ?src]) \<and> type e = content_too_large"
    by blast
  moreover
  have b1: "ok chunked_response" by (simp add: ok_def chunked_response_def)
  have b2: "contentLengthExceeds chunked_response = None"
    by (simp add: contentLengthExceeds_def chunked_response_def truthy_def)
  have b3: "body chunked_response = Some chunked_body"
    by (simp add: chunked_response_def)
  have len: "utf8_length chunked_body = 52428801"
    unfolding chunked_body_def
    by (simp add: utf8_length_replicate is_high_surrogate_def unit_bytes_def)
  have b4: "utf8_length chunked_body > maxResponseSize"
    unfolding len by (simp add: maxResponseSize_def)
  have u2: "URL_protocol (remote_world chunked_response) ?src = Some ''https:''"
    and f2: "fetch (remote_world chunked_response) ?src = Responded chunked_response"
    by (simp_all add: remote_world_def)
  from remote_oversized [OF u2 p f2 b1] b2 b3 b4 obtain e where
    e: "HttpJsonStrategy_ingest (remote_world chunked_response) ?src
          = (Failure e, [Fetch ?src, ReadBody])" "type e = content_too_large"
       "details e = Fields [(''actualSize'', DNumber (utf8_length chunked_body)),
                            (''maxSize'', DNumber maxResponseSize), (''url'', DString ?src)]"
    by blast
  from e(3) have "detail_of e ''actualSize'' = Some (DNumber 52428801)"
    by (simp add: detail_of_def len)
  with e(1,2) have "\<exists>e. HttpJsonStrategy_ingest (remote_world chunked_response) ?src
          = (Failure e, [Fetch ?src, ReadBody]) \<and> type e = content_too_large \<and>
          detail_of e ''actualSize'' = Some (DNumber 52428801)"
    by blast
  ultimately show ?thesis using a1 a2 a3 a4 b1 b2 b4 by blast
qed

subsection \<open>Classification of HTTP failures\<close>

lemma decimal_404: "decimal 404 = ''404''"
  by (simp add: decimal.simps)

text \<open>
  C8 (amended): for every non-2xx response, remote ingestion fails and classifies the
  status: 401 and 403 give \<open>authentication_required\<close>, each with its own message, after
  one attempt to read the body, whose first 200 UTF-16 code units (not bytes) become the
  preview, absent when the read fails or the body is empty; 429 gives
  \<open>rate_limit_exceeded\<close> with the non-empty \<open>Retry-After\<close> value, if any; a status of
  500 or more gives \<open>server_error\<close>; every other status gives \<open>network_error\<close>, whose
  message ends with the URL-verification hint exactly for 404.
\<close>

theorem non_2xx_classification:
  assumes "URL_protocol w source = Some p" and "p = ''http:'' \<or> p = ''https:''"
    and "fetch w source = Responded response" and "\<not> ok response"
  shows "\<exists>e ios. HttpJsonStrategy_ingest w source = (Failure e, Fetch source # ios) \<and>
    (status response = 401 \<longrightarrow>
       type e = authentication_required \<and>
       message e = ''Authentication required: This endpoint needs valid credentials. Verify this is a public API endpoint.'') \<and>
    (status response = 403 \<longrightarrow>
       type e = authentication_required \<and>
       message e = ''Access forbidden: This endpoint may require authentication, be restricted by region, or have IP restrictions. Verify this is a publicly accessible endpoint.'') \<and>
    (status response = 401 \<or> status response = 403 \<longrightarrow>
       ios = [ReadBody] \<and>
       detail_of e ''responsePreview'' =
         Some (case body response of
                 None \<Rightarrow> DUndefined
               | Some responseText \<Rightarrow>
                   if take 200 responseText = [] then DUndefined
                   else DText (take 200 responseText))) \<and>
    (status response = 429 \<longrightarrow>
       type e = rate_limit_exceeded \<and>
       detail_of e ''retryAfter'' =
         Some (case headers response ''retry-after'' of
                 None \<Rightarrow> DUndefined
               | Some v \<Rightarrow> if v = [] then DUndefined else DString v)) \<and>
    (status response \<ge> 500 \<longrightarrow> type e = server_error) \<and>
    (status response \<noteq> 401 \<and> status response \<noteq> 403 \<and> status response \<noteq> 429 \<and>
     status response < 500 \<longrightarrow>
       type e = network_error \<and>
       message e = ''HTTP '' @ decimal (status response) @ '': '' @ statusText response @ ''. ''
         @ (if status response = 404 then ''Endpoint not found - verify the URL is correct.''
            else ''Client error occurred.''))"
  using assms
  by (auto simp: HttpJsonStrategy_ingest_def notOkResponse_def detail_of_def truthy_def Let_def
           split: option.splits)

text \<open>
  C8, as stated, fails on the size of the preview: \<open>substring(0, 200)\<close> counts UTF-16
  code units. For a 401 response whose body is 200 times the letter U+00E9, the preview
  is the whole body, 400 bytes in UTF-8 (and in UTF-16), not at most 200 bytes.
\<close>

theorem preview_bytes_counterexample:
  "HttpJsonStrategy_ingest (remote_world unauthorized_response) ''https://example.com/a.json''
     = (Failure \<lparr>type = authentication_required,
          message = ''Authentication required: This endpoint needs valid credentials. Verify this is a public API endpoint.'',
          details = Fields [(''status'', DNumber 401), (''statusText'', DString ''Unauthorized''),
                            (''url'', DString ''https://example.com/a.json''),
                            (''responsePreview'', DText accented_body)]\<rparr>,
        [Fetch ''https://example.com/a.json'', ReadBody]) \<and>
   utf8_length accented_body = 400"
proof -
  have len: "length accented_body = 200" by (simp add: accented_body_def)
  then have ne: "accented_body \<noteq> []" by auto
  have u: "utf8_length accented_body = 400"
    unfolding accented_body_def
    by (simp add: utf8_length_replicate is_high_surrogate_def unit_bytes_def)
  have "HttpJsonStrategy_ingest (remote_world unauthorized_response) ''https://example.com/a.json''
     = (Failure \<lparr>type = authentication_required,
          message = ''Authentication required: This endpoint needs valid credentials. Verify this is a public API endpoint.'',
          details = Fields [(''status'', DNumber 401), (''statusText'', DString ''Unauthorized''),
                            (''url'', DString ''https://example.com/a.json''),
                            (''responsePreview'', DText accented_body)]\<rparr>,
        [Fetch ''https://example.com/a.json'', ReadBody])"
    using len ne
    by (simp add: HttpJsonStrategy_ingest_def notOkResponse_def remote_world_def
          unauthorized_response_def ok_def Let_def)
  with u show ?thesis by blast
qed

theorem non_2xx_classification_witness:
  "\<not> ok not_found_response \<and>
   (\<exists>e ios. HttpJsonStrategy_ingest (remote_world not_found_response) ''https://example.com/a.json''
        = (Failure e, Fetch ''https://example.com/a.json'' # ios) \<and>
      type e = network_error \<and>
      message e = ''HTTP 404: Not Found. Endpoint not found - verify the URL is correct.'')"
proof -
  let ?src = "''https://example.com/a.json''"
  have p: "''https:'' = ''http:'' \<or> ''https:'' = ''https:''" by simp
  have u: "URL_protocol (remote_world not_found_response) ?src = Some ''https:''"
    and f: "fetch (remote_world not_found_response) ?src = Responded not_found_response"
    by (simp_all add: remote_world_def)
  have n: "\<not> ok not_found_response" by (simp add: ok_def not_found_response_def)
  have s: "status not_found_response = 404" "statusText not_found_response = ''Not Found''"
    by (simp_all add: not_found_response_def)
  from non_2xx_classification [OF u p f n] obtain e ios where
    e: "HttpJsonStrategy_ingest (remote_world not_found_response) ?src = (Failure e, Fetch ?src # ios)"
    and c: "status not_found_response \<noteq> 401 \<and> status not_found_response \<noteq> 403 \<and>
            status not_found_response \<noteq> 429 \<and> status not_found_response < 500 \<longrightarrow>
       type e = network_error \<and>
       message e = ''HTTP '' @ decimal (status not_found_response) @ '': ''
         @ statusText not_found_response @ ''. ''
         @ (if status not_found_response = 404 then ''Endpoint not found - verify the URL is correct.''
            else ''Client error occurred.'')"
    by blast
  from c s have "type e = network_error \<and>
      message e = ''HTTP 404: Not Found. Endpoint not found - verify the URL is correct.''"
    by (simp add: decimal_404)
  with e n show ?thesis by blast
qed

subsection \<open>Strategy resolution\<close>

lemma startsWith_Cons: "startsWith (c # s) (d # p) = (c = d \<and> startsWith s p)"
  by (auto simp: startsWith_def)

lemma local_messages:
  "fst (LocalFileStrategy_ingest w source) = Failure e \<Longrightarrow>
   \<not> startsWith (message e) ''No strategy found''"
  by (auto simp: LocalFileStrategy_ingest_def validateJsonContent_def Let_def startsWith_Cons
           split: option.splits if_splits)

lemma notOk_messages:
  "fst (notOkResponse source response) = Failure e \<Longrightarrow>
   \<not> startsWith (message e) ''No strategy found''"
  by (auto simp: notOkResponse_def Let_def startsWith_Cons split: if_splits)

lemma okResponse_messages:
  "fst (okResponse w source response) = Failure e \<Longrightarrow>
   \<not> startsWith (message e) ''No strategy found''"
  by (auto simp: okResponse_def invalidJsonResponse_def validateJsonContent_def Let_def
                 startsWith_Cons
           split: option.splits if_splits JsonIngestionResult.splits)

lemma http_messages:
  assumes "fst (HttpJsonStrategy_ingest w source) = Failure e"
  shows "\<not> startsWith (message e) ''No strategy found''"
proof (cases "URL_protocol w source")
  case None
  with assms show ?thesis
    by (auto simp: HttpJsonStrategy_ingest_def startsWith_Cons)
next
  case (Some protocol)
  show ?thesis
  proof (cases "protocol \<noteq> ''http:'' \<and> protocol \<noteq> ''https:''")
    case True
    with assms Some show ?thesis
      by (auto simp: HttpJsonStrategy_ingest_def startsWith_Cons)
  next
    case False
    show ?thesis
    proof (cases "fetch w source")
      case Aborted
      with assms Some False show ?thesis
        by (auto simp: HttpJsonStrategy_ingest_def startsWith_Cons)
    next
      case (Rejected error_message)
      with assms Some False show ?thesis
        by (auto simp: HttpJsonStrategy_ingest_def startsWith_Cons)
    next
      case (Responded response)
      with assms Some False
      have "fst (if \<not> ok response then notOkResponse source response
                 else okResponse w source response) = Failure e"
        by (auto simp: HttpJsonStrategy_ingest_def split: prod.splits)
      then show ?thesis
        using notOk_messages [of source response e] okResponse_messages [of w source response e]
        by (cases "ok response") simp_all
    qed
  qed
qed

text \<open>
  C10: \<open>LocalFileStrategy\<close> accepts exactly the sources that begin with neither
  \<open>http://\<close> nor \<open>https://\<close>, \<open>HttpJsonStrategy\<close> exactly those that do; so for every
  source some registered strategy accepts it, \<open>findStrategy\<close> finds one, \<open>ingest\<close> is the
  \<open>ingest\<close> of that strategy, and no failure it returns carries the message
  \<open>No strategy found ...\<close>.
\<close>

theorem strategy_always_found:
  "(canHandle LocalFileStrategy source =
      (\<not> (startsWith source ''http://'' \<or> startsWith source ''https://''))) \<and>
   (canHandle HttpJsonStrategy source =
      (startsWith source ''http://'' \<or> startsWith source ''https://'')) \<and>
   (\<exists>strategy \<in> set strategies. canHandle strategy source) \<and>
   findStrategy source =
     Some (if canHandle LocalFileStrategy source then LocalFileStrategy else HttpJsonStrategy) \<and>
   JsonIngestionContext_ingest w source =
     (if canHandle LocalFileStrategy source then LocalFileStrategy_ingest w source
      else HttpJsonStrategy_ingest w source) \<and>
   (\<forall>e. fst (JsonIngestionContext_ingest w source) = Failure e \<longrightarrow>
        \<not> startsWith (message e) ''No strategy found'')"
proof -
  have c1: "canHandle LocalFileStrategy source =
      (\<not> (startsWith source ''http://'' \<or> startsWith source ''https://''))"
    by (simp add: LocalFileStrategy_def LocalFileStrategy_canHandle_def)
  have c2: "canHandle HttpJsonStrategy source =
      (startsWith source ''http://'' \<or> startsWith source ''https://'')"
    by (simp add: HttpJsonStrategy_def HttpJsonStrategy_canHandle_def)
  have f: "findStrategy source =
     Some (if canHandle LocalFileStrategy source then LocalFileStrategy else HttpJsonStrategy)"
    using c1 c2 by (simp add: findStrategy_def strategies_def)
  have i: "JsonIngestionContext_ingest w source =
     (if canHandle LocalFileStrategy source then LocalFileStrategy_ingest w source
      else HttpJsonStrategy_ingest w source)"
    unfolding JsonIngestionContext_ingest_def f
    by (simp add: LocalFileStrategy_def HttpJsonStrategy_def)
  have ex: "\<exists>strategy \<in> set strategies. canHandle strategy source"
    using c1 c2 by (auto simp: strategies_def)
  have m: "\<forall>e. fst (JsonIngestionContext_ingest w source) = Failure e \<longrightarrow>
        \<not> startsWith (message e) ''No strategy found''"
    unfolding i using local_messages http_messages by auto
  from c1 c2 ex f i m show ?thesis by blast
qed

theorem strategy_always_found_witness:
  "canHandle LocalFileStrategy ''ftp://host/a.json'' \<and>
   \<not> canHandle HttpJsonStrategy ''ftp://host/a.json'' \<and>
   JsonIngestionContext_ingest (remote_world not_found_response) ''ftp://host/a.json''
     = (Failure \<lparr>type = file_not_found, message = ''File not found: ftp://host/a.json'',
                  details = Caught\<rparr>, [Stat ''ftp://host/a.json'']) \<and>
   \<not> startsWith ''File not found: ftp://host/a.json'' ''No strategy found''"
proof -
  let ?w = "remote_world not_found_response"
  let ?src = "''ftp://host/a.json''"
  note T = strategy_always_found [of ?src ?w]
  have s: "\<not> (startsWith ?src ''http://'' \<or> startsWith ?src ''https://'')"
    by (simp add: startsWith_def)
  from T s have c: "canHandle LocalFileStrategy ?src" "\<not> canHandle HttpJsonStrategy ?src"
    by blast+
  from T have "JsonIngestionContext_ingest ?w ?src =
     (if canHandle LocalFileStrategy ?src then LocalFileStrategy_ingest ?w ?src
      else HttpJsonStrategy_ingest ?w ?src)" by blast
  with c have "JsonIngestionContext_ingest ?w ?src = LocalFileStrategy_ingest ?w ?src"
    by simp
  then have r: "JsonIngestionContext_ingest ?w ?src
     = (Failure \<lparr>type = file_not_found, message = ''File not found: ftp://host/a.json'',
                  details = Caught\<rparr>, [Stat ?src])"
    by (simp add: LocalFileStrategy_ingest_def remote_world_def Let_def)
  from T have "\<forall>e. fst (JsonIngestionContext_ingest ?w ?src) = Failure e \<longrightarrow>
        \<not> startsWith (message e) ''No strategy found''" by blast
  with r have "\<not> startsWith ''File not found: ftp://host/a.json'' ''No strategy found''"
    by simp
  with c r show ?thesis by blast
qed

section \<open>Properties of the size accountant\<close>

subsection \<open>Byte-exactness\<close>

lemma sizeOf_example: "calculateValueSize rt (JObj [(ascii ''a'', JNum (Finite ''1''))]) = 7"
  by (simp add: ascii_def unit_bytes_def is_high_surrogate_def)

text \<open>
  C1 does not hold of the code. The document \<open>{"\"":1}\<close> parses to an object whose only
  key is a quotation mark. \<open>calculateValueSize\<close> counts the key as \<open>"""\<close> (3 bytes) and
  returns 7, while the document re-serialized without whitespace is \<open>{"\"":1}\<close>, 8 bytes:
  string values are measured through \<open>JSON.stringify\<close>, keys are not.
\<close>

theorem sizeOf_escaped_key:
  "calculateValueSize rt (JObj [([0x22], JNum (Finite ''1''))]) = 7 \<and>
   map_option utf8_length (JSON_stringify rt [] (JObj [([0x22], JNum (Finite ''1''))])) = Some 8"
  by (simp add: ascii_def unit_bytes_def is_high_surrogate_def is_low_surrogate_def
        JSON_stringify_def wrap_def member_text_def QuoteJSONString_def escape_unit_def)

text \<open>
  The same divergence for a number beyond the double range: \<open>1e999\<close> parses to
  \<open>Infinity\<close>, measured as the 8 bytes of \<open>Infinity\<close> and serialized as \<open>null\<close>.
\<close>

theorem sizeOf_infinity:
  "calculateValueSize rt (JNum PosInfinity) = 8 \<and>
   map_option utf8_length (JSON_stringify rt [] (JNum PosInfinity)) = Some 4"
  by (simp add: ascii_def unit_bytes_def is_high_surrogate_def is_low_surrogate_def
        JSON_stringify_def)

lemma ascii_unit:
  "c < 0x80 \<Longrightarrow> unit_bytes c = 1 \<and> \<not> is_high_surrogate c \<and> \<not> is_low_surrogate c"
  by (auto simp: unit_bytes_def is_high_surrogate_def is_low_surrogate_def
        word_less_nat_alt word_le_nat_alt)

lemma utf8_length_ascii_Cons: "c < 0x80 \<Longrightarrow> utf8_length (c # ys) = 1 + utf8_length ys"
  using ascii_unit [of c] by (cases ys) auto

lemma utf8_length_ascii_mid:
  "c < 0x80 \<Longrightarrow> utf8_length (xs @ c # ys) = utf8_length xs + 1 + utf8_length ys"
proof (induction xs rule: utf8_length.induct)
  case 1
  then show ?case by (simp add: utf8_length_ascii_Cons)
next
  case (2 d)
  then show ?case
    using ascii_unit [of c] by (simp add: utf8_length_ascii_Cons)
next
  case (3 d e cs)
  then show ?case by auto
qed

lemma utf8_length_ascii_snoc: "c < 0x80 \<Longrightarrow> utf8_length (xs @ [c]) = utf8_length xs + 1"
  using utf8_length_ascii_mid [of c xs "[]"] by simp

lemma utf8_length_wrap_array:
  "utf8_length (wrap ''['' '']'' [] indent parts) = 2 + utf8_length (join (ascii '','') parts)"
  by (simp add: wrap_def ascii_def utf8_length_ascii_Cons utf8_length_ascii_snoc
        unit_bytes_def is_high_surrogate_def)

lemma utf8_length_wrap_object:
  "utf8_length (wrap ''{'' ''}'' [] indent parts) = 2 + utf8_length (join (ascii '','') parts)"
  by (simp add: wrap_def ascii_def utf8_length_ascii_Cons utf8_length_ascii_snoc
        unit_bytes_def is_high_surrogate_def)

lemma utf8_length_join_Cons:
  "utf8_length (join (ascii '','') (p # ps))
     = utf8_length p + (if ps \<noteq> [] then 1 else 0) + utf8_length (join (ascii '','') ps)"
  by (cases ps) (simp_all add: ascii_def utf8_length_ascii_mid)

lemma utf8_length_member:
  "plain_key key \<Longrightarrow>
   utf8_length (member_text [] (key, t)) = utf8_length ([0x22] @ key @ [0x22]) + 1 + utf8_length t"
  using utf8_length_ascii_mid [of "0x3A" "[0x22] @ key @ [0x22]" t]
  by (simp add: member_text_def QuoteJSONString_def plain_key_def ascii_def)

lemma filter_defined:
  "list_all (\<lambda>entry. plain_key (fst entry) \<and> plain_document (snd entry)) obj \<Longrightarrow>
   filter (\<lambda>entry. snd entry \<noteq> JUndefined) obj = obj"
  by (induction obj) auto

lemma sizeOf_exact_aux:
  "plain_document v \<Longrightarrow>
     \<exists>t. SerializeJSONProperty rt [] indent v = Some t \<and> utf8_length t = calculateValueSize rt v"
  "list_all plain_document xs \<Longrightarrow>
     utf8_length (join (ascii '','') (json_elements rt [] indent' xs)) = sizeOfItems rt xs"
  "list_all (\<lambda>entry. plain_key (fst entry) \<and> plain_document (snd entry)) obj \<Longrightarrow>
     utf8_length (join (ascii '','') (map (member_text []) (json_members rt [] indent'' obj)))
       = sizeOfEntries rt obj"
proof (induction rt v and rt xs and rt obj arbitrary: indent and indent' and indent''
       rule: calculateValueSize_sizeOfItems_sizeOfEntries.induct)
  case 1
  then show ?case by simp
next
  case 2
  then show ?case by simp
next
  case (3 rt s)
  then show ?case by simp
next
  case (4 rt n)
  then show ?case by (cases n) simp_all
next
  case (5 rt b)
  then show ?case by simp
next
  case (6 rt xs)
  then have "list_all plain_document xs" by simp
  from "6.IH" [OF this] show ?case
    by (simp add: utf8_length_wrap_array)
next
  case (7 rt obj)
  then have ok: "list_all (\<lambda>entry. plain_key (fst entry) \<and> plain_document (snd entry)) obj"
    by simp
  then have f: "filter (\<lambda>entry. snd entry \<noteq> JUndefined) obj = obj" by (rule filter_defined)
  from "7.IH" [unfolded f, OF ok] show ?case
    by (simp add: utf8_length_wrap_object f)
next
  case 8
  then show ?case by simp
next
  case 9
  then show ?case by simp
next
  case 10
  then show ?case by simp
next
  case 11
  then show ?case by simp
next
  case (12 rt x xs)
  then have x: "plain_document x" and xs: "list_all plain_document xs" by simp_all
  from "12.IH"(1) [OF x, of indent'] obtain t where
    t: "SerializeJSONProperty rt [] indent' x = Some t" "utf8_length t = calculateValueSize rt x"
    by blast
  have e: "json_elements rt [] indent' xs = [] \<longleftrightarrow> xs = []" by (cases xs) auto
  from "12.IH"(2) [OF xs, of indent'] t e show ?case
    by (simp add: utf8_length_join_Cons)
next
  case 13
  then show ?case by simp
next
  case (14 rt key val entries)
  then have k: "plain_key key" and v: "plain_document val"
    and es: "list_all (\<lambda>entry. plain_key (fst entry) \<and> plain_document (snd entry)) entries"
    by simp_all
  from "14.IH"(1) [OF v, of indent''] obtain t where
    t: "SerializeJSONProperty rt [] indent'' val = Some t" "utf8_length t = calculateValueSize rt val"
    by blast
  have e: "json_members rt [] indent'' entries = [] \<longleftrightarrow> entries = []"
  proof (cases entries)
    case Nil
    then show ?thesis by simp
  next
    case (Cons e' es')
    obtain k' v' where e': "e' = (k', v')" by (cases e')
    with es Cons have "plain_document v'" by simp
    then have "SerializeJSONProperty rt [] indent'' v' \<noteq> None" by (cases v') auto
    with Cons e' show ?thesis by auto
  qed
  from "14.IH"(2) [OF es, of indent''] t e utf8_length_member [OF k, of t] show ?case
    by (simp add: utf8_length_join_Cons del: utf8_length.simps)
qed

text \<open>
  Where no key needs escaping and every number is finite, the size is exact: it is the
  UTF-8 length of the compact serialization.
\<close>

theorem sizeOf_exact_on_plain_documents:
  "plain_document v \<Longrightarrow>
   \<exists>t. JSON_stringify rt [] v = Some t \<and> calculateValueSize rt v = utf8_length t"
  using sizeOf_exact_aux(1) [of v rt "[]"] by (auto simp: JSON_stringify_def)

subsection \<open>Merging breakdowns\<close>

lemma set_resultKeys_plain:
  assumes "ascii ''__proto__'' \<notin> fst ` set xs" and "ascii ''__proto__'' \<notin> fst ` set ys"
  shows "set (resultKeys (Breakdown xs) (Breakdown ys)) = fst ` set xs \<union> fst ` set ys"
  using assms by (auto simp: set_resultKeys)

lemma distinct_property_order: "distinct keys \<Longrightarrow> distinct (property_order keys)"
  by (auto simp: property_order_def)

lemma distinct_resultKeys: "distinct (resultKeys a b)"
  by (simp add: resultKeys_def allKeys_def distinct_property_order)

lemma map_of_keyed:
  "map_of (map (\<lambda>key. (key, f key)) ks) k = (if k \<in> set ks then Some (f k) else None)"
  by (induction ks) auto




text \<open>The three branches of \<open>addSizeBreakdowns\<close>.\<close>

lemma add_numbers: "addSizeBreakdowns (Size n1) (Size n2) = Size (n1 + n2)"
  by (simp add: addSizeBreakdowns.simps)

lemma add_objects:
  assumes "is_object a" and "is_object b"
  shows "addSizeBreakdowns a b =
     Breakdown (map (\<lambda>key. (key, addSizeBreakdowns (valueOrZero a key) (valueOrZero b key)))
                    (resultKeys a b))"
proof -
  from assms(1) have "\<not> is_number a" by (cases a) simp_all
  then show ?thesis
    by (subst addSizeBreakdowns.simps) (simp only: assms simp_thms if_True if_False)
qed

lemma add_mismatched:
  assumes "\<not> (is_number a \<and> is_number b)" and "\<not> (is_object a \<and> is_object b)"
  shows "addSizeBreakdowns a b =
     (if truthy_breakdown a then a else if truthy_breakdown b then b else Size 0)"
  by (subst addSizeBreakdowns.simps) (simp only: assms if_False)

lemma add_Breakdowns:
  "addSizeBreakdowns (Breakdown xs) (Breakdown ys) =
     Breakdown (map (\<lambda>key. (key, addSizeBreakdowns (valueOrZero (Breakdown xs) key)
                                                      (valueOrZero (Breakdown ys) key)))
                    (resultKeys (Breakdown xs) (Breakdown ys)))"
  by (simp add: add_objects)

lemma add_zero_left: "addSizeBreakdowns (Size 0) b = b"
  by (cases b) (simp_all add: add_numbers add_mismatched)

lemma add_zero_right: "addSizeBreakdowns b (Size 0) = b"
  by (cases b) (simp_all add: add_numbers add_mismatched)

text \<open>
  On keys that name no member of \<open>Object.prototype\<close>, \<open>breakdown[key] || 0\<close> is the own
  property or 0, and the merge of two objects lists all their keys.
\<close>

lemma proto_name: "ascii ''__proto__'' \<in> set object_prototype_names"
  by (simp add: object_prototype_names_def)

lemma valueOrZero_plain:
  "key \<notin> set object_prototype_names \<Longrightarrow>
   valueOrZero (Breakdown entries) key
     = (case map_of entries key of None \<Rightarrow> Size 0 | Some v \<Rightarrow> v)"
  by (auto simp: object_prototype_names_def split: option.splits)

lemma valueOrZero_own:
  "map_of entries key = Some v \<Longrightarrow> valueOrZero (Breakdown entries) key = v"
  by simp

declare valueOrZero.simps [simp del]


lemma valueOrZero_in_set:
  "k \<notin> set object_prototype_names \<Longrightarrow> valueOrZero (Breakdown xs) k \<noteq> Size 0 \<Longrightarrow>
   (k, valueOrZero (Breakdown xs) k) \<in> set xs"
  by (auto simp: valueOrZero_plain split: option.splits dest: map_of_SomeD)

text \<open>Breakdowns that fit a rule.\<close>

lemma fits_entry:
  "fits (Nested sub) (Breakdown xs) \<Longrightarrow> (k, v) \<in> set xs \<Longrightarrow>
   k \<notin> set object_prototype_names \<and> (\<exists>r. map_of sub k = Some r \<and> fits r v)"
  by (fastforce split: option.splits)

lemma fits_keys:
  "fits (Nested sub) (Breakdown xs) \<Longrightarrow> k \<in> fst ` set xs \<Longrightarrow> k \<notin> set object_prototype_names"
  using fits_entry by fastforce

lemma fits_no_proto: "fits (Nested sub) (Breakdown xs) \<Longrightarrow> ascii ''__proto__'' \<notin> fst ` set xs"
  using fits_keys proto_name by blast

lemma fits_valueOrZero:
  assumes "fits (Nested sub) (Breakdown xs)" and "k \<notin> set object_prototype_names"
  shows "valueOrZero (Breakdown xs) k = Size 0 \<or>
         (\<exists>r. map_of sub k = Some r \<and> fits r (valueOrZero (Breakdown xs) k))"
proof (cases "map_of xs k")
  case None
  then show ?thesis by (simp add: valueOrZero_plain [OF assms(2)])
next
  case (Some v)
  then have "(k, v) \<in> set xs" by (rule map_of_SomeD)
  from fits_entry [OF assms(1) this] Some show ?thesis by (simp add: valueOrZero_own)
qed

lemma fits_valueOrZero_present:
  assumes "fits (Nested sub) (Breakdown xs)" and "k \<in> fst ` set xs"
  shows "\<exists>r. map_of sub k = Some r \<and> fits r (valueOrZero (Breakdown xs) k)"
proof -
  from assms(1) have d: "distinct (map fst xs)" by simp
  from assms(2) obtain v where v: "(k, v) \<in> set xs" by auto
  with d have m: "map_of xs k = Some v" by simp
  from fits_entry [OF assms(1) v] m show ?thesis by (simp add: valueOrZero_own)
qed

lemma fits_Breakdown_rule: "fits r (Breakdown xs) \<Longrightarrow> \<exists>sub. r = Nested sub"
  by (cases r) simp_all

lemma fits_Size_rule: "fits r (Size n) \<Longrightarrow> r = Include"
  by (cases r) simp_all

lemma fits_Include_cases: "fits Include b \<Longrightarrow> \<exists>n. b = Size n"
  by (cases b) simp_all

lemma fits_Nested_cases: "fits (Nested sub) b \<Longrightarrow> \<exists>entries. b = Breakdown entries"
  by (cases b) simp_all




text \<open>
  What the merge holds under a key, and that a key of one side only keeps the value of
  that side.
\<close>

lemma merge_entry:
  assumes "conforms shape (Breakdown xs)" and "conforms shape (Breakdown ys)"
  shows "\<exists>entries. addSizeBreakdowns (Breakdown xs) (Breakdown ys) = Breakdown entries \<and>
           (\<forall>k. map_of entries k
                  = (if k \<in> fst ` set xs \<union> fst ` set ys
                     then Some (addSizeBreakdowns (valueOrZero (Breakdown xs) k)
                                                  (valueOrZero (Breakdown ys) k))
                     else None))"
  using assms
  by (simp add: conforms_def add_Breakdowns map_of_keyed
        set_resultKeys_plain [OF fits_no_proto fits_no_proto] del: fits.simps)

lemma merge_one_sided:
  "k \<notin> set object_prototype_names \<Longrightarrow> map_of ys k = None \<Longrightarrow>
   addSizeBreakdowns (valueOrZero (Breakdown xs) k) (valueOrZero (Breakdown ys) k)
     = valueOrZero (Breakdown xs) k"
  by (simp add: valueOrZero_plain add_zero_right)

lemmas merge_simps =
  resultKeys_def property_order_def is_array_index_def array_index_def is_digit_def
  allKeys_def valueOrZero.simps object_prototype_functions_def ascii_def



text \<open>
  Both merges occur in \<open>calculateSizeWithShape\<close>: they are the breakdowns of the
  documents \<open>[[], {"toString": false}]\<close> and \<open>[{"toString": false}, []]\<close> under the shape
  \<open>{"toString": true}\<close>.
\<close>

lemma merge_inherited_reached:
  "calculateSizeWithShape rt (JArr []) toString_shape = Inr (Breakdown [])"
  "calculateSizeWithShape rt toString_item toString_shape = Inr toString_breakdown"
  "calculateSizeWithShape rt (JArr [JArr [], toString_item]) toString_shape
     = Inr (addSizeBreakdowns (Breakdown []) toString_breakdown)"
  "calculateSizeWithShape rt (JArr [toString_item, JArr []]) toString_shape
     = Inr (addSizeBreakdowns toString_breakdown (Breakdown []))"
proof -
  have p: "ascii ''toString'' \<noteq> ascii ''__proto__''" by (simp add: ascii_def)
  have five: "utf8_length (ascii ''false'') = 5"
    by (simp add: ascii_def unit_bytes_def is_high_surrogate_def)
  show 1: "calculateSizeWithShape rt (JArr []) toString_shape = Inr (Breakdown [])"
    by simp
  show 2: "calculateSizeWithShape rt toString_item toString_shape = Inr toString_breakdown"
    using p five
    by (simp add: toString_item_def toString_shape_def toString_breakdown_def assign_def)
  have item: "toString_item \<noteq> JArr items" for items
    by (simp add: toString_item_def)
  show "calculateSizeWithShape rt (JArr [JArr [], toString_item]) toString_shape
     = Inr (addSizeBreakdowns (Breakdown []) toString_breakdown)"
    using 2 by (simp del: calculateSizeWithShape.simps
                     add: calculateSizeWithShape.simps [of rt "JArr xs" for xs])
  show "calculateSizeWithShape rt (JArr [toString_item, JArr []]) toString_shape
     = Inr (addSizeBreakdowns toString_breakdown (Breakdown []))"
    using 2 by (simp del: calculateSizeWithShape.simps
                     add: calculateSizeWithShape.simps [of rt "JArr xs" for xs])
qed

text \<open>
  Operands whose kinds disagree under one key (a number on one side, an object on the
  other) are answered with the first truthy one. \<open>calculateSizeWithShape\<close> merges no
  such operands: they are breakdowns of one shape.
\<close>

lemma merge_mismatched_kinds:
  "addSizeBreakdowns mixed_a mixed_b = mixed_a"
  "addSizeBreakdowns mixed_b mixed_a = mixed_b"
  by (simp_all add: mixed_a_def mixed_b_def add_objects add_mismatched merge_simps)


subsection \<open>Breakdowns computed for one shape fit it\<close>

lemma fits_add:
  "(fits r a \<or> a = Size 0) \<Longrightarrow> (fits r b \<or> b = Size 0) \<Longrightarrow> (fits r a \<or> fits r b) \<Longrightarrow>
   fits r (addSizeBreakdowns a b)"
proof (induction a arbitrary: b r)
  case (Size n)
  show ?case
  proof (cases "fits r (Size n)")
    case True
    then have r: "r = Include" by (rule fits_Size_rule)
    with Size.prems(2) obtain m where "b = Size m"
      using fits_Include_cases by blast
    with r show ?thesis by (simp add: add_numbers)
  next
    case False
    with Size.prems have "n = 0" "fits r b" by auto
    then show ?thesis by (simp add: add_zero_left)
  qed
next
  case (Breakdown xs)
  show ?case
  proof (cases "b = Size 0")
    case True
    with Breakdown.prems show ?thesis by (auto simp: add_zero_right)
  next
    case False
    with Breakdown.prems have fa: "fits r (Breakdown xs)" and fb: "fits r b" by auto
    from fa obtain sub where r: "r = Nested sub" using fits_Breakdown_rule by blast
    with fb obtain ys where b: "b = Breakdown ys" using fits_Nested_cases by blast
    note fx = fa [unfolded r] and fy = fb [unfolded r b]
    let ?X = "Breakdown xs" and ?Y = "Breakdown ys"
    note px = fits_no_proto [OF fx] and py = fits_no_proto [OF fy]
    let ?m = "map (\<lambda>key. (key, addSizeBreakdowns (valueOrZero ?X key) (valueOrZero ?Y key)))
                  (resultKeys ?X ?Y)"
    have eq: "addSizeBreakdowns ?X ?Y = Breakdown ?m"
      by (rule add_Breakdowns)
    have d: "distinct (map fst ?m)"
      by (simp add: comp_def distinct_resultKeys)
    have each: "fst e \<notin> set object_prototype_names \<and>
        (case map_of sub (fst e) of None \<Rightarrow> False | Some r' \<Rightarrow> fits r' (snd e))"
      if e: "e \<in> set ?m" for e
    proof -
      from e obtain key where key: "key \<in> set (resultKeys ?X ?Y)"
        and e': "e = (key, addSizeBreakdowns (valueOrZero ?X key) (valueOrZero ?Y key))"
        by auto
      from key have side: "key \<in> fst ` set xs \<or> key \<in> fst ` set ys"
        by (auto simp: set_resultKeys_plain [OF px py])
      then have plain: "key \<notin> set object_prototype_names"
        using fits_keys [OF fx] fits_keys [OF fy] by blast
      from side obtain r' where r': "map_of sub key = Some r'"
        and one: "fits r' (valueOrZero ?X key) \<or> fits r' (valueOrZero ?Y key)"
        using fits_valueOrZero_present [OF fx] fits_valueOrZero_present [OF fy] by blast
      from fits_valueOrZero [OF fx plain] r'
      have x: "fits r' (valueOrZero ?X key) \<or> valueOrZero ?X key = Size 0" by auto
      from fits_valueOrZero [OF fy plain] r'
      have y: "fits r' (valueOrZero ?Y key) \<or> valueOrZero ?Y key = Size 0" by auto
      have "fits r' (addSizeBreakdowns (valueOrZero ?X key) (valueOrZero ?Y key))"
      proof (cases "valueOrZero ?X key = Size 0")
        case True
        with one y show ?thesis by (auto simp only: add_zero_left)
      next
        case False
        with plain have "(key, valueOrZero ?X key) \<in> set xs" by (rule valueOrZero_in_set)
        then show ?thesis
          by (rule Breakdown.IH [OF _ _ x y one]) simp
      qed
      with plain r' e' show ?thesis by simp
    qed
    from d each show ?thesis unfolding b r eq fits.simps by blast
  qed
qed auto

lemma conforms_add:
  "conforms shape a \<Longrightarrow> conforms shape b \<Longrightarrow> conforms shape (addSizeBreakdowns a b)"
  unfolding conforms_def by (rule fits_add) simp_all

lemma set_setProp_subset: "set (setProp acc k v) \<subseteq> insert (k, v) (set acc)"
  by (induction acc k v rule: setProp.induct) auto

lemma fits_assign:
  assumes "fits (Nested full) (Breakdown result)" and "map_of full key = Some r" and "fits r v"
    and "key \<notin> set object_prototype_names"
  shows "fits (Nested full) (Breakdown (assign result key v))"
proof -
  from assms(4) proto_name have a: "assign result key v = setProp result key v"
    by (auto simp: assign_def)
  from assms(1) have "distinct (map fst (setProp result key v))"
    by (simp add: distinct_setProp)
  moreover have "fst e \<notin> set object_prototype_names \<and>
      (case map_of full (fst e) of None \<Rightarrow> False | Some r' \<Rightarrow> fits r' (snd e))"
    if "e \<in> set (setProp result key v)" for e
  proof -
    from that set_setProp_subset have "e = (key, v) \<or> e \<in> set result" by fastforce
    then show ?thesis
    proof
      assume "e = (key, v)"
      with assms(2,3,4) show ?thesis by simp
    next
      assume "e \<in> set result"
      with assms(1) show ?thesis by simp
    qed
  qed
  ultimately show ?thesis unfolding a by simp
qed

lemma map_of_mid:
  "distinct (map fst (pre @ (key, rule) # rest)) \<Longrightarrow>
   map_of (pre @ (key, rule) # rest) key = Some rule"
  by (induction pre) (auto simp: image_iff)

lemma wf_shape_entry:
  "wf_shape full \<Longrightarrow> (key, rule) \<in> set full \<Longrightarrow>
   key \<notin> set object_prototype_names \<and> wf_rule rule"
  unfolding wf_shape_def by fastforce

lemma wf_shape_sub:
  "wf_shape full \<Longrightarrow> (key, Nested sub) \<in> set full \<Longrightarrow> wf_shape sub"
  using wf_shape_entry [of full key "Nested sub"] by (simp add: wf_shape_def)

lemma calculateSizeWithShape_conforms:
  "wf_shape shape \<Longrightarrow> calculateSizeWithShape rt data shape = Inr b \<Longrightarrow> conforms shape b"
  and sizeOfElements_conforms:
  "wf_shape shape \<Longrightarrow> conforms shape totalSizeBreakdown \<Longrightarrow>
   sizeOfElements rt items shape totalSizeBreakdown isFirstElement = Inr b' \<Longrightarrow> conforms shape b'"
  and sizeOfKeys_conforms:
  "wf_shape full \<Longrightarrow> full = pre @ rest \<Longrightarrow> conforms full (Breakdown result) \<Longrightarrow>
   sizeOfKeys rt data' rest result = Inr r \<Longrightarrow> conforms full (Breakdown r)"
proof (induction rt data shape and rt items shape totalSizeBreakdown isFirstElement
         and rt data' rest result
       arbitrary: b and b' and full pre r
       rule: calculateSizeWithShape_sizeOfElements_sizeOfKeys.induct)
  case (1 rt data shape)
  have empty: "conforms shape (Breakdown [])" by (simp add: conforms_def)
  show ?case
  proof (cases "isArray data")
    case True
    then obtain items where d: "data = JArr items" by (cases data) auto
    with "1.prems" have "sizeOfElements rt items shape (Breakdown []) True = Inr b" by simp
    from "1.IH"(6) [OF d "1.prems"(1) empty this] show ?thesis .
  next
    case False
    with "1.prems"(2) obtain r where r: "sizeOfKeys rt data shape [] = Inr r" and b: "b = Breakdown r"
      by (cases data) (auto split: sum.splits)
    have app: "shape = [] @ shape" by simp
    from False show ?thesis
      unfolding b
      by (cases data)
         (auto intro: "1.IH"(1-5,7,8) [OF _ "1.prems"(1) app empty r])
  qed
next
  case (2 rt shape totalSizeBreakdown isFirstElement)
  then show ?case by simp
next
  case (3 rt item items shape totalSizeBreakdown isFirstElement)
  from "3.prems"(3) obtain ib where ib: "calculateSizeWithShape rt item shape = Inr ib"
    and rest: "sizeOfElements rt items shape
        (if isFirstElement then ib else addSizeBreakdowns totalSizeBreakdown ib) False = Inr b'"
    by (auto split: sum.splits simp del: calculateSizeWithShape.simps)
  from "3.IH"(1) [OF "3.prems"(1) ib] have c: "conforms shape ib" .
  with "3.prems"(2)
  have "conforms shape (if isFirstElement then ib else addSizeBreakdowns totalSizeBreakdown ib)"
    by (simp add: conforms_add)
  from "3.IH"(2) [OF ib "3.prems"(1) this rest] show ?case .
next
  case (4 rt data result)
  then show ?case by simp
next
  case (5 rt data key rule rest result)
  from "5.prems"(4) obtain v where v: "getProp rt data key = Inr v"
    by (auto split: sum.splits simp del: calculateSizeWithShape.simps)
  have full': "full = (pre @ [(key, rule)]) @ rest" using "5.prems"(2) by simp
  from "5.prems"(1) have "distinct (map fst full)" by (simp add: wf_shape_def)
  then have m: "map_of full key = Some rule"
    unfolding "5.prems"(2) by (rule map_of_mid)
  from "5.prems"(2) have "(key, rule) \<in> set full" by simp
  with "5.prems"(1) have plain: "key \<notin> set object_prototype_names"
    using wf_shape_entry by blast
  show ?case
  proof (cases "v = JUndefined")
    case True
    with "5.prems"(4) v have "sizeOfKeys rt data rest result = Inr r"
      by (simp del: calculateSizeWithShape.simps)
    from "5.IH"(1) [OF v True "5.prems"(1) full' "5.prems"(3) this] show ?thesis .
  next
    case False
    show ?thesis
    proof (cases rule)
      case Include
      with "5.prems"(4) v False
      have s: "sizeOfKeys rt data rest (assign result key (Size (calculateValueSize rt v))) = Inr r"
        by (simp del: calculateSizeWithShape.simps)
      have "conforms full (Breakdown (assign result key (Size (calculateValueSize rt v))))"
        unfolding conforms_def
        by (rule fits_assign [OF "5.prems"(3) [unfolded conforms_def] m _ plain])
           (simp add: Include)
      from "5.IH"(2) [OF v False Include "5.prems"(1) full' this s] show ?thesis .
    next
      case (Nested sub)
      with "5.prems"(4) v False obtain bb where bb: "calculateSizeWithShape rt v sub = Inr bb"
        and s: "sizeOfKeys rt data rest (assign result key bb) = Inr r"
        by (auto split: sum.splits simp del: calculateSizeWithShape.simps)
      from "5.prems"(2) Nested have "(key, Nested sub) \<in> set full" by simp
      with "5.prems"(1) have "wf_shape sub" by (rule wf_shape_sub)
      from "5.IH"(3) [OF v False Nested this bb] have "conforms sub bb" .
      then have "fits rule bb" by (simp add: Nested conforms_def)
      then have "conforms full (Breakdown (assign result key bb))"
        unfolding conforms_def
        by (rule fits_assign [OF "5.prems"(3) [unfolded conforms_def] m _ plain])
      from "5.IH"(4) [OF v False Nested bb "5.prems"(1) full' this s] show ?thesis .
    next
      case Ignored
      with "5.prems"(4) v False have "sizeOfKeys rt data rest result = Inr r"
        by (simp del: calculateSizeWithShape.simps)
      from "5.IH"(5) [OF v False Ignored "5.prems"(1) full' "5.prems"(3) this] show ?thesis .
    qed
  qed
qed

section \<open>The worked examples of the specification\<close>

text \<open>
  The two end-to-end examples: the projection, the size breakdown and the total of 42
  bytes of the first, the projection and the merged breakdown of the second.
\<close>

lemmas example_simps =
  ascii_def unit_bytes_def is_high_surrogate_def is_low_surrogate_def QuoteJSONString_def
  escape_unit_def assign_def add_objects add_numbers merge_simps
  object_prototype_member_def

lemma person_example:
  "extractWithShape rt person_document [(ascii ''name'', Include), (ascii ''age'', Include)]
     = Inr (JObj [(ascii ''name'', JStr (ascii ''John'')), (ascii ''age'', JNum (Finite ''30''))])"
  "calculateSizeWithShape rt person_document [(ascii ''name'', Include), (ascii ''age'', Include)]
     = Inr (Breakdown [(ascii ''name'', Size 6), (ascii ''age'', Size 2)])"
  "calculateValueSize rt person_document = 42"
  by (simp_all add: person_document_def example_simps)

lemma users_example:
  "extractWithShape rt users_document [(ascii ''users'', Nested [(ascii ''id'', Include)])]
     = Inr (JObj [(ascii ''users'', JArr [JObj [(ascii ''id'', JNum (Finite ''1''))],
                                          JObj [(ascii ''id'', JNum (Finite ''2''))]])])"
  "calculateSizeWithShape rt users_document [(ascii ''users'', Nested [(ascii ''id'', Include)])]
     = Inr (Breakdown [(ascii ''users'', Breakdown [(ascii ''id'', Size 2)])])"
  by (simp_all add: users_document_def example_simps)

end
